theory Spec2Isabelle
  imports Main
begin

section \<open>Python values, exceptions and strings\<close>

text \<open>
  The exceptions that the modelled functions of \<^verbatim>\<open>build_training_data.py\<close> and
  \<^verbatim>\<open>app/App.py\<close> can raise. A computation that may raise has the type
  \<open>py_error + 'a\<close>, with \<open>Inl\<close> for the exception.
\<close>

datatype py_error = ValueError | IndexError | OverflowError

text \<open>
  A cell of a data frame as \<^verbatim>\<open>robust_time_parser\<close> can receive it: a \<^verbatim>\<open>str\<close>,
  or something that is not a \<^verbatim>\<open>str\<close> (\<^verbatim>\<open>None\<close>, a float NaN of a missing cell, an
  integer). A string is a list of characters with code points below 256; of these
  only \<^verbatim>\<open>0\<close> to \<^verbatim>\<open>9\<close> are decimal digits for \<^verbatim>\<open>int()\<close> and for the regular
  expression of \<^verbatim>\<open>strptime\<close>.
\<close>

datatype py_value = PyStr string | PyNone | PyNaN | PyInt int

definition py_bind :: "py_error + 'a \<Rightarrow> ('a \<Rightarrow> py_error + 'b) \<Rightarrow> py_error + 'b" where
  "py_bind m f = (case m of Inl e \<Rightarrow> Inl e | Inr x \<Rightarrow> f x)"

definition is_digit :: "char \<Rightarrow> bool" where
  "is_digit c = (48 \<le> (of_char c :: nat) \<and> (of_char c :: nat) \<le> 57)"

definition digit_val :: "char \<Rightarrow> nat" where
  "digit_val c = of_char c - 48"

text \<open>
  The white space that \<^verbatim>\<open>int()\<close> strips from a \<^verbatim>\<open>str\<close>: tab, line feed, vertical
  tab, form feed, carriage return, space, and of the code points from 127 to 255 the
  two Unicode spaces U+0085 and U+00A0.
\<close>

definition is_space :: "char \<Rightarrow> bool" where
  "is_space c = ((of_char c :: nat) \<in> {9, 10, 11, 12, 13, 32, 133, 160})"

definition strip :: "string \<Rightarrow> string" where
  "strip s = rev (dropWhile is_space (rev (dropWhile is_space s)))"

text \<open>
  \<^verbatim>\<open>str.split(sep)\<close> for a separator of one character: the fields between the
  separators, never an empty list.
\<close>

fun split_char :: "char \<Rightarrow> string \<Rightarrow> string list" where
  "split_char c [] = [[]]"
| "split_char c (x # xs) =
     (if x = c then [] # split_char c xs
      else (case split_char c xs of p # ps \<Rightarrow> (x # p) # ps | [] \<Rightarrow> [[x]]))"

text \<open>Indexing a list with a non-negative constant: \<^verbatim>\<open>IndexError\<close> out of range.\<close>

definition parts_get :: "'a list \<Rightarrow> nat \<Rightarrow> py_error + 'a" where
  "parts_get xs i = (if i < length xs then Inr (xs ! i) else Inl IndexError)"

subsection \<open>\<^verbatim>\<open>int(str)\<close>\<close>

text \<open>
  The digits of a decimal literal: at least one digit, single underscores between
  digits only. The state is whether the previous character was a digit, the number
  of digits read and the value read.
\<close>

fun int_digits :: "bool \<Rightarrow> nat \<Rightarrow> nat \<Rightarrow> string \<Rightarrow> (nat \<times> nat) option" where
  "int_digits prev n acc [] = (if prev then Some (n, acc) else None)"
| "int_digits prev n acc (c # cs) =
     (if is_digit c then int_digits True (Suc n) (10 * acc + digit_val c) cs
      else if c = CHR ''_'' \<and> prev then int_digits False n acc cs
      else None)"

text \<open>
  CPython refuses a decimal string of more than 4300 digits with \<^verbatim>\<open>ValueError\<close>
  (the default of \<^verbatim>\<open>sys.int_info.default_max_str_digits\<close>).
\<close>

definition int_max_str_digits :: nat where
  "int_max_str_digits = 4300"

definition int_unsigned :: "string \<Rightarrow> int option" where
  "int_unsigned s =
     (case int_digits False 0 0 s of
        None \<Rightarrow> None
      | Some (n, v) \<Rightarrow> if n > int_max_str_digits then None else Some (int v))"

definition py_int :: "string \<Rightarrow> py_error + int" where
  "py_int s =
     (let t = strip s;
          r = (case t of
                 [] \<Rightarrow> None
               | c # cs \<Rightarrow>
                   if c = CHR ''-'' then map_option uminus (int_unsigned cs)
                   else if c = CHR ''+'' then int_unsigned cs
                   else int_unsigned t)
      in case r of None \<Rightarrow> Inl ValueError | Some v \<Rightarrow> Inr v)"

section \<open>Time Normalizer: \<^verbatim>\<open>robust_time_parser\<close>\<close>

text \<open>
  A \<^verbatim>\<open>datetime.time\<close> as the parser builds it: microsecond 0 and no time zone, so
  the three fields are all there is.
\<close>

record py_time =
  hour :: nat
  minute :: nat
  second :: nat

definition time_secs :: "py_time \<Rightarrow> int" where
  "time_secs t = int (3600 * hour t + 60 * minute t + second t)"

subsection \<open>\<^verbatim>\<open>datetime.strptime(s, '%H:%M:%S')\<close>\<close>

text \<open>
  \<^verbatim>\<open>strptime\<close> turns the format into the regular expression
  \<^verbatim>\<open>(2[0-3]|[0-1]\d|\d):([0-5]\d|\d):(6[0-1]|[0-5]\d|\d)\<close>, matches it at the start of
  the string, refuses a match that does not end at the end of the string, and then
  builds the \<^verbatim>\<open>datetime\<close>, which refuses a second above 59. Each group is modelled by
  the list of its matches (value, rest of the string) in the order a backtracking
  matcher tries the alternatives; the match of the whole expression is the first
  combination.
\<close>

definition alt2 :: "(char \<Rightarrow> bool) \<Rightarrow> (char \<Rightarrow> bool) \<Rightarrow> string \<Rightarrow> (nat \<times> string) list" where
  "alt2 p q s =
     (case s of
        a # b # r \<Rightarrow> if p a \<and> q b then [(10 * digit_val a + digit_val b, r)] else []
      | _ \<Rightarrow> [])"

definition alt1 :: "string \<Rightarrow> (nat \<times> string) list" where
  "alt1 s = (case s of a # r \<Rightarrow> if is_digit a then [(digit_val a, r)] else [] | [] \<Rightarrow> [])"

definition in_range :: "nat \<Rightarrow> nat \<Rightarrow> char \<Rightarrow> bool" where
  "in_range lo hi c = (48 + lo \<le> (of_char c :: nat) \<and> (of_char c :: nat) \<le> 48 + hi)"

definition match_H :: "string \<Rightarrow> (nat \<times> string) list" where
  "match_H s = alt2 (in_range 2 2) (in_range 0 3) s @ alt2 (in_range 0 1) is_digit s @ alt1 s"

definition match_M :: "string \<Rightarrow> (nat \<times> string) list" where
  "match_M s = alt2 (in_range 0 5) is_digit s @ alt1 s"

definition match_S :: "string \<Rightarrow> (nat \<times> string) list" where
  "match_S s = alt2 (in_range 6 6) (in_range 0 1) s @ alt2 (in_range 0 5) is_digit s @ alt1 s"

definition match_colon :: "string \<Rightarrow> string list" where
  "match_colon s = (case s of x # r \<Rightarrow> if x = CHR '':'' then [r] else [] | [] \<Rightarrow> [])"

definition regex_HMS :: "string \<Rightarrow> (nat \<times> nat \<times> nat \<times> string) list" where
  "regex_HMS s =
     concat (map (\<lambda>(h, r1). concat (map (\<lambda>r1'.
       concat (map (\<lambda>(m, r2). concat (map (\<lambda>r2'.
         map (\<lambda>(sec, r3). (h, m, sec, r3)) (match_S r2'))
         (match_colon r2))) (match_M r1')))
       (match_colon r1))) (match_H s))"

definition strptime_HMS :: "string \<Rightarrow> py_error + py_time" where
  "strptime_HMS s =
     (case regex_HMS s of
        [] \<Rightarrow> Inl ValueError
      | (h, m, sec, rest) # _ \<Rightarrow>
          if rest \<noteq> [] then Inl ValueError
          else if sec > 59 then Inl ValueError
          else Inr \<lparr>hour = h, minute = m, second = sec\<rparr>)"

subsection \<open>\<^verbatim>\<open>datetime.min + timedelta(hours=h, minutes=m, seconds=s)\<close>\<close>

text \<open>
  A \<^verbatim>\<open>timedelta\<close> of whole seconds is normalised to days and seconds of the day, and
  refuses more than 999999999 days in either direction. A \<^verbatim>\<open>datetime\<close> is a day
  ordinal (1 for 0001-01-01, 3652059 for 9999-12-31) and seconds of the day; a sum
  outside that range raises \<^verbatim>\<open>OverflowError\<close>.
\<close>

definition timedelta :: "int \<Rightarrow> int \<Rightarrow> int \<Rightarrow> py_error + (int \<times> int)" where
  "timedelta h m s =
     (let total = 3600 * h + 60 * m + s; days = total div 86400
      in if \<bar>days\<bar> > 999999999 then Inl OverflowError else Inr (days, total mod 86400))"

definition max_ordinal :: int where
  "max_ordinal = 3652059"

definition datetime_min_add :: "int \<times> int \<Rightarrow> py_error + (int \<times> int)" where
  "datetime_min_add td =
     (let ordinal = 1 + fst td
      in if 1 \<le> ordinal \<and> ordinal \<le> max_ordinal then Inr (ordinal, snd td)
         else Inl OverflowError)"

definition time_of :: "int \<times> int \<Rightarrow> py_time" where
  "time_of dt =
     \<lparr>hour = nat (snd dt div 3600), minute = nat (snd dt mod 3600 div 60),
      second = nat (snd dt mod 60)\<rparr>"

text \<open>The body of the inner \<^verbatim>\<open>try\<close>: the extended hour format.\<close>

definition extended_hour_parse :: "string \<Rightarrow> py_error + py_time" where
  "extended_hour_parse time_str =
     (let parts = split_char CHR '':'' time_str in
      py_bind (py_bind (parts_get parts 0) py_int) (\<lambda>h.
      py_bind (py_bind (parts_get parts 1) py_int) (\<lambda>m.
      py_bind (py_bind (parts_get parts 2) py_int) (\<lambda>s.
      py_bind (timedelta h m s) (\<lambda>td.
      py_bind (datetime_min_add td) (\<lambda>dt. Inr (time_of dt)))))))"

text \<open>
  \<^verbatim>\<open>robust_time_parser\<close>: \<open>Inr None\<close> is the returned \<^verbatim>\<open>None\<close>. The outer handler
  catches \<^verbatim>\<open>ValueError\<close>, the inner one \<^verbatim>\<open>ValueError\<close> and \<^verbatim>\<open>IndexError\<close>; any other
  exception leaves the function.
\<close>

definition robust_time_parser :: "py_value \<Rightarrow> py_error + py_time option" where
  "robust_time_parser time_str =
     (case time_str of
        PyStr s \<Rightarrow>
          (case strptime_HMS s of
             Inr t \<Rightarrow> Inr (Some t)
           | Inl e \<Rightarrow>
               if e = ValueError then
                 (case extended_hour_parse s of
                    Inr t \<Rightarrow> Inr (Some t)
                  | Inl e' \<Rightarrow> if e' = ValueError \<or> e' = IndexError then Inr None else Inl e')
               else Inl e)
      | _ \<Rightarrow> Inr None)"

section \<open>Auxiliary notions for the statements\<close>

definition digit_field :: "string \<Rightarrow> nat \<Rightarrow> bool" where
  "digit_field ds v =
     (case ds of
        [a] \<Rightarrow> is_digit a \<and> v = digit_val a
      | [a, b] \<Rightarrow> is_digit a \<and> is_digit b \<and> v = 10 * digit_val a + digit_val b
      | _ \<Rightarrow> False)"

text \<open>Whether the first three colon-separated fields of a string are integers.\<close>

definition three_int_fields :: "string \<Rightarrow> bool" where
  "three_int_fields s =
     (let parts = split_char CHR '':'' s
      in 3 \<le> length parts \<and> py_int (parts ! 0) \<noteq> Inl ValueError \<and>
         py_int (parts ! 1) \<noteq> Inl ValueError \<and> py_int (parts ! 2) \<noteq> Inl ValueError)"

text \<open>A clock string with two digits in each field, as \<^verbatim>\<open>'%02d:%02d:%02d'\<close> writes it.\<close>

definition digit_char :: "nat \<Rightarrow> char" where
  "digit_char k = ''0123456789'' ! k"

definition two_digits :: "nat \<Rightarrow> string" where
  "two_digits n = [digit_char (n div 10), digit_char (n mod 10)]"

definition clock_string :: "nat \<Rightarrow> nat \<Rightarrow> nat \<Rightarrow> string" where
  "clock_string h m s = two_digits h @ CHR '':'' # two_digits m @ CHR '':'' # two_digits s"

section \<open>Delay Calculator: \<^verbatim>\<open>calculate_delay\<close>\<close>

text \<open>
  The two cells of a row that \<^verbatim>\<open>calculate_delay\<close> reads. The record is extensible, so
  the function applies to rows with more columns.
\<close>

record delay_row =
  scheduled_arrival :: py_value
  actual_arrival :: py_value

text \<open>
  A \<^verbatim>\<open>datetime\<close> is a day ordinal and the seconds of the day, as in
  \<open>datetime_min_add\<close>. \<^verbatim>\<open>datetime.combine\<close> puts a date and a time together;
  comparison is lexicographic; a difference is a \<^verbatim>\<open>timedelta\<close>, whose
  \<^verbatim>\<open>total_seconds()\<close> is a float that holds the whole number of seconds exactly;
  adding days raises \<^verbatim>\<open>OverflowError\<close> beyond 9999-12-31.
\<close>

definition combine :: "int \<Rightarrow> py_time \<Rightarrow> int \<times> int" where
  "combine date t = (date, time_secs t)"

definition dt_less :: "int \<times> int \<Rightarrow> int \<times> int \<Rightarrow> bool" where
  "dt_less a b = (fst a < fst b \<or> (fst a = fst b \<and> snd a < snd b))"

definition total_seconds_diff :: "int \<times> int \<Rightarrow> int \<times> int \<Rightarrow> int" where
  "total_seconds_diff a b = 86400 * (fst a - fst b) + (snd a - snd b)"

definition add_days :: "int \<times> int \<Rightarrow> int \<Rightarrow> py_error + (int \<times> int)" where
  "add_days dt n =
     (let ordinal = fst dt + n
      in if 1 \<le> ordinal \<and> ordinal \<le> max_ordinal then Inr (ordinal, snd dt)
         else Inl OverflowError)"

text \<open>
  \<^verbatim>\<open>calculate_delay\<close>; \<open>today\<close> is the ordinal of \<^verbatim>\<open>datetime.date.today()\<close>. The
  result \<open>Inr None\<close> is the returned \<^verbatim>\<open>None\<close>, \<open>Inr (Some d)\<close> the returned seconds.
\<close>

definition calculate_delay :: "int \<Rightarrow> 'a delay_row_scheme \<Rightarrow> py_error + int option" where
  "calculate_delay today row =
     py_bind (robust_time_parser (scheduled_arrival row)) (\<lambda>scheduled_time.
     py_bind (robust_time_parser (actual_arrival row)) (\<lambda>actual_time.
       (case (scheduled_time, actual_time) of
          (Some st, Some at) \<Rightarrow>
            (let dummy_date = today;
                 scheduled_dt = combine dummy_date st;
                 actual_dt = combine dummy_date at
             in py_bind
                  (if dt_less actual_dt scheduled_dt \<and>
                      total_seconds_diff scheduled_dt actual_dt > 12 * 3600
                   then add_days actual_dt 1 else Inr actual_dt)
                  (\<lambda>actual_dt'. Inr (Some (total_seconds_diff actual_dt' scheduled_dt))))
        | _ \<Rightarrow> Inr None)))"

section \<open>Service Calendar Resolver: \<^verbatim>\<open>get_service_id_for_date\<close>\<close>

text \<open>
  A row of \<^verbatim>\<open>calendar.txt\<close> as \<^verbatim>\<open>main\<close> reads it: the dates are integers
  (\<^verbatim>\<open>YYYYMMDD\<close>), the weekday columns hold the integers that the file holds, and the
  service id is a string. The frame is the list of its rows in the file's order.
\<close>

record calendar_entry =
  service_id :: string
  monday :: int
  tuesday :: int
  wednesday :: int
  thursday :: int
  friday :: int
  saturday :: int
  sunday :: int
  start_date :: int
  end_date :: int

text \<open>
  \<^verbatim>\<open>datetime.date(year, month, day)\<close> and \<^verbatim>\<open>weekday()\<close>, as CPython computes them:
  the constructor refuses a year outside 1..9999, a month outside 1..12 and a day
  that the month does not have; the weekday is taken from the proleptic Gregorian
  ordinal, Monday being 0.
\<close>

definition is_leap :: "int \<Rightarrow> bool" where
  "is_leap y = (y mod 4 = 0 \<and> (y mod 100 \<noteq> 0 \<or> y mod 400 = 0))"

definition days_in_month :: "int \<Rightarrow> int \<Rightarrow> int" where
  "days_in_month y m =
     (if m = 2 then (if is_leap y then 29 else 28)
      else if m = 4 \<or> m = 6 \<or> m = 9 \<or> m = 11 then 30 else 31)"

definition days_before_year :: "int \<Rightarrow> int" where
  "days_before_year y = (y - 1) * 365 + (y - 1) div 4 - (y - 1) div 100 + (y - 1) div 400"

definition days_before_month :: "int \<Rightarrow> int \<Rightarrow> int" where
  "days_before_month y m =
     [0, 0, 31, 59, 90, 120, 151, 181, 212, 243, 273, 304, 334] ! nat m +
     (if m > 2 \<and> is_leap y then 1 else 0)"

definition ymd2ord :: "int \<Rightarrow> int \<Rightarrow> int \<Rightarrow> int" where
  "ymd2ord y m d = days_before_year y + days_before_month y m + d"

definition py_date :: "int \<Rightarrow> int \<Rightarrow> int \<Rightarrow> py_error + int" where
  "py_date y m d =
     (if 1 \<le> y \<and> y \<le> 9999 \<and> 1 \<le> m \<and> m \<le> 12 \<and> 1 \<le> d \<and> d \<le> days_in_month y m
      then Inr (ymd2ord y m d) else Inl ValueError)"

definition weekday :: "int \<Rightarrow> int" where
  "weekday ordinal = (ordinal + 6) mod 7"

text \<open>The dictionary \<^verbatim>\<open>day_map\<close>: the weekday column of a weekday number.\<close>

definition day_map :: "int \<Rightarrow> (calendar_entry \<Rightarrow> int) option" where
  "day_map k =
     (if k = 0 then Some monday else if k = 1 then Some tuesday
      else if k = 2 then Some wednesday else if k = 3 then Some thursday
      else if k = 4 then Some friday else if k = 5 then Some saturday
      else if k = 6 then Some sunday else None)"

text \<open>A slice \<^verbatim>\<open>s[i:j]\<close> with constants \<open>0 \<le> i \<le> j\<close>.\<close>

definition slice :: "nat \<Rightarrow> nat \<Rightarrow> 'a list \<Rightarrow> 'a list" where
  "slice i j s = take (j - i) (drop i s)"

definition get_service_id_for_date :: "string \<Rightarrow> calendar_entry list \<Rightarrow> py_error + string option" where
  "get_service_id_for_date date_str calendar_df =
     py_bind (py_int (slice 0 4 date_str)) (\<lambda>year.
     py_bind (py_int (slice 4 6 date_str)) (\<lambda>month.
     py_bind (py_int (slice 6 8 date_str)) (\<lambda>day.
     py_bind (py_date year month day) (\<lambda>dt_obj.
       (let day_of_week = weekday dt_obj
        in case day_map day_of_week of
             Some day_col \<Rightarrow>
               py_bind (py_int date_str) (\<lambda>n.
                 (let active_services =
                        map service_id
                          (filter (\<lambda>e. start_date e \<le> n \<and> end_date e \<ge> n \<and> day_col e = 1)
                             calendar_df)
                  in Inr (case active_services of [] \<Rightarrow> None | x # _ \<Rightarrow> Some x)))
           | None \<Rightarrow> Inr None)))))"

text \<open>
  For the statement about the resolver: the string \<^verbatim>\<open>YYYYMMDD\<close> of a date, the
  weekday column of a date, and the entries the specification selects (validity
  window containing the date, weekday flag set).
\<close>

text \<open>The number that a string of decimal digits writes, continuing from \<open>acc\<close>.\<close>

definition digits_value :: "nat \<Rightarrow> string \<Rightarrow> nat" where
  "digits_value acc ds = foldl (\<lambda>a c. 10 * a + digit_val c) acc ds"

definition four_digits :: "nat \<Rightarrow> string" where
  "four_digits n =
     [digit_char (n div 1000), digit_char (n div 100 mod 10), digit_char (n div 10 mod 10),
      digit_char (n mod 10)]"

definition date_string :: "nat \<Rightarrow> nat \<Rightarrow> nat \<Rightarrow> string" where
  "date_string y m d = four_digits y @ two_digits m @ two_digits d"

definition valid_date :: "nat \<Rightarrow> nat \<Rightarrow> nat \<Rightarrow> bool" where
  "valid_date y m d =
     (1 \<le> y \<and> y \<le> 9999 \<and> 1 \<le> m \<and> m \<le> 12 \<and> 1 \<le> d \<and>
      int d \<le> days_in_month (int y) (int m))"

definition weekday_flag :: "nat \<Rightarrow> nat \<Rightarrow> nat \<Rightarrow> calendar_entry \<Rightarrow> int" where
  "weekday_flag y m d e =
     [monday e, tuesday e, wednesday e, thursday e, friday e, saturday e, sunday e] !
       nat (weekday (ymd2ord (int y) (int m) (int d)))"

definition active_on :: "nat \<Rightarrow> nat \<Rightarrow> nat \<Rightarrow> calendar_entry \<Rightarrow> bool" where
  "active_on y m d e =
     (start_date e \<le> int (10000 * y + 100 * m + d) \<and>
      int (10000 * y + 100 * m + d) \<le> end_date e \<and> weekday_flag y m d e = 1)"

section \<open>Trip Matcher and Dataset Assembler: the steps of \<^verbatim>\<open>main\<close>\<close>

text \<open>
  A data frame is the list of its rows. A row of \<^verbatim>\<open>realtime_df\<close> after step 2a, with
  the columns that \<^verbatim>\<open>main\<close> uses: the route, trip and stop identifiers are strings
  (after \<^verbatim>\<open>astype(str)\<close>), the start date is an integer, the arrival a cell that
  the time parser reads, and \<^verbatim>\<open>service_id\<close> is the service that step 2a found (rows
  without one are dropped there).
\<close>

record realtime_row =
  route_id :: string
  trip_id :: string
  direction_id :: string
  track_direction :: string
  stop_id :: string
  stop_name :: string
  start_date :: int
  start_time :: string
  actual_arrival :: py_value
  service_id :: string

text \<open>The columns of \<^verbatim>\<open>trips.txt\<close> and of \<^verbatim>\<open>stop_times.txt\<close> that \<^verbatim>\<open>main\<close> selects.\<close>

record static_trip =
  trip_id :: string
  route_id :: string
  direction_id :: string
  service_id :: string

record stop_time =
  trip_id :: string
  stop_id :: string
  scheduled_arrival :: py_value

text \<open>
  \<^verbatim>\<open>x.split('_', 1)\<close>: at most one split, so one field, or the text before the first
  separator and all the text after it.
\<close>

definition split_once :: "char \<Rightarrow> string \<Rightarrow> string list" where
  "split_once c s =
     (case dropWhile (\<lambda>x. x \<noteq> c) s of
        [] \<Rightarrow> [s]
      | _ # rest \<Rightarrow> [takeWhile (\<lambda>x. x \<noteq> c) s, rest])"

text \<open>
  The two lambdas of step 2b. Index 0 is \<open>hd\<close> and index -1 is \<open>last\<close>; both lists
  have at least one field.
\<close>

definition realtime_start_time_str :: "string \<Rightarrow> string" where
  "realtime_start_time_str x =
     (if CHR ''_'' \<in> set x then hd (split_char CHR ''_'' x) else x)"

definition static_start_time_str :: "string \<Rightarrow> string" where
  "static_start_time_str x =
     (if CHR ''_'' \<in> set x then hd (split_char CHR ''_'' (last (split_once CHR ''_'' x))) else x)"

text \<open>
  \<^verbatim>\<open>pd.merge(left, right, left_on=..., right_on=..., how='inner')\<close>: every pair of a
  left row and a right row with equal keys, in the order of the left rows and, for one
  left row, in the order of the right rows. A merged row is the pair of its two rows.
\<close>

definition merge_inner :: "('a \<Rightarrow> 'k) \<Rightarrow> ('b \<Rightarrow> 'k) \<Rightarrow> 'a list \<Rightarrow> 'b list \<Rightarrow> ('a \<times> 'b) list" where
  "merge_inner left_on right_on left right =
     concat (map (\<lambda>l. map (\<lambda>r. (l, r)) (filter (\<lambda>r. right_on r = left_on l) right)) left)"

definition realtime_key :: "realtime_row \<Rightarrow> string \<times> string \<times> string \<times> string" where
  "realtime_key r =
     (realtime_row.route_id r, realtime_row.direction_id r, realtime_row.service_id r,
      realtime_start_time_str (realtime_row.trip_id r))"

definition static_key :: "static_trip \<Rightarrow> string \<times> string \<times> string \<times> string" where
  "static_key t =
     (static_trip.route_id t, static_trip.direction_id t, static_trip.service_id t,
      static_start_time_str (static_trip.trip_id t))"

text \<open>Step 2b: \<^verbatim>\<open>matched_trips_df\<close>. The static trip of a pair is \<^verbatim>\<open>trip_id_static\<close>.\<close>

definition matched_trips_df :: "realtime_row list \<Rightarrow> static_trip list \<Rightarrow> (realtime_row \<times> static_trip) list" where
  "matched_trips_df realtime_df trips_df = merge_inner realtime_key static_key realtime_df trips_df"

text \<open>Step 2c: \<^verbatim>\<open>merged_df\<close>, on the static trip id and the stop id.\<close>

definition merged_df ::
  "(realtime_row \<times> static_trip) list \<Rightarrow> stop_time list \<Rightarrow>
     ((realtime_row \<times> static_trip) \<times> stop_time) list" where
  "merged_df matched stop_times_df =
     merge_inner (\<lambda>(r, t). (static_trip.trip_id t, realtime_row.stop_id r))
       (\<lambda>s. (stop_time.trip_id s, stop_time.stop_id s)) matched stop_times_df"

text \<open>
  Steps 3 and 4. \<^verbatim>\<open>DataFrame.apply\<close> calls \<^verbatim>\<open>calculate_delay\<close> on the rows in order,
  and an exception of one call ends it. A row of \<^verbatim>\<open>final_df\<close> has the columns of
  \<^verbatim>\<open>final_columns\<close>; \<open>delay_seconds\<close> is \<open>None\<close> for a missing value.
\<close>

fun apply_rows :: "('a \<Rightarrow> py_error + 'b) \<Rightarrow> 'a list \<Rightarrow> py_error + 'b list" where
  "apply_rows f [] = Inr []"
| "apply_rows f (x # xs) =
     py_bind (f x) (\<lambda>y. py_bind (apply_rows f xs) (\<lambda>ys. Inr (y # ys)))"

record final_row = delay_row +
  route_id :: string
  trip_id_realtime :: string
  track_direction :: string
  stop_id :: string
  stop_name :: string
  start_date :: int
  start_time :: string
  delay_seconds :: "int option"

definition delay_cells :: "(realtime_row \<times> static_trip) \<times> stop_time \<Rightarrow> delay_row" where
  "delay_cells row =
     \<lparr>delay_row.scheduled_arrival = stop_time.scheduled_arrival (snd row),
      delay_row.actual_arrival = realtime_row.actual_arrival (fst (fst row))\<rparr>"

definition final_columns ::
  "(realtime_row \<times> static_trip) \<times> stop_time \<Rightarrow> int option \<Rightarrow> final_row" where
  "final_columns row d =
     (let r = fst (fst row) in
      \<lparr>delay_row.scheduled_arrival = stop_time.scheduled_arrival (snd row),
       delay_row.actual_arrival = realtime_row.actual_arrival r,
       final_row.route_id = realtime_row.route_id r, trip_id_realtime = realtime_row.trip_id r,
       final_row.track_direction = realtime_row.track_direction r,
       final_row.stop_id = realtime_row.stop_id r,
       final_row.stop_name = realtime_row.stop_name r,
       final_row.start_date = realtime_row.start_date r,
       final_row.start_time = realtime_row.start_time r, delay_seconds = d\<rparr>)"

definition dropna_delay :: "final_row list \<Rightarrow> final_row list" where
  "dropna_delay df = filter (\<lambda>r. delay_seconds r \<noteq> None) df"

definition abs_below_7200 :: "final_row \<Rightarrow> bool" where
  "abs_below_7200 r = (case delay_seconds r of Some d \<Rightarrow> \<bar>d\<bar> < 7200 | None \<Rightarrow> False)"

definition final_df ::
  "int \<Rightarrow> ((realtime_row \<times> static_trip) \<times> stop_time) list \<Rightarrow> py_error + final_row list" where
  "final_df today merged =
     py_bind
       (apply_rows (\<lambda>row. py_bind (calculate_delay today (delay_cells row))
                            (\<lambda>d. Inr (final_columns row d))) merged)
       (\<lambda>df. Inr (filter abs_below_7200 (dropna_delay df)))"

text \<open>
  Steps 2b to 4 of \<^verbatim>\<open>main\<close> with its early returns: \<open>Inr None\<close> when \<^verbatim>\<open>main\<close>
  returns before it writes \<^verbatim>\<open>training_data.csv\<close>, \<open>Inr (Some df)\<close> with the frame
  it writes.
\<close>

definition main_assemble ::
  "int \<Rightarrow> realtime_row list \<Rightarrow> static_trip list \<Rightarrow> stop_time list \<Rightarrow>
     py_error + final_row list option" where
  "main_assemble today realtime_df trips_df stop_times_df =
     (let matched = matched_trips_df realtime_df trips_df in
      if matched = [] then Inr None
      else let merged = merged_df matched stop_times_df in
        if merged = [] then Inr None
        else py_bind (final_df today merged) (\<lambda>df. Inr (Some df)))"

text \<open>For the statement about the matcher: the static trips with the join key of an observation.\<close>

definition matching_trips :: "realtime_row \<Rightarrow> static_trip list \<Rightarrow> static_trip list" where
  "matching_trips r trips_df = filter (\<lambda>t. static_key t = realtime_key r) trips_df"

section \<open>Example data\<close>

text \<open>
  A static trip of the Sunday service of route 1 with the start-time token 000600, a
  second static trip with the same route, direction, service and token, and three
  observations of the real-time trip \<^verbatim>\<open>000600_1..S03R\<close> at three stops, with the
  scheduled arrivals of the first static trip at these stops.
\<close>

definition example_trip_a :: static_trip where
  "example_trip_a =
     \<lparr>static_trip.trip_id = ''AFA23GEN-1038-Sunday-00_000600_1..S03R'',
      static_trip.route_id = ''1'', static_trip.direction_id = ''1'',
      static_trip.service_id = ''Sunday''\<rparr>"

definition example_trip_b :: static_trip where
  "example_trip_b =
     \<lparr>static_trip.trip_id = ''AFA23GEN-1038-Sunday-00_000600_1..S04R'',
      static_trip.route_id = ''1'', static_trip.direction_id = ''1'',
      static_trip.service_id = ''Sunday''\<rparr>"

definition example_trip_c :: static_trip where
  "example_trip_c =
     \<lparr>static_trip.trip_id = ''AFA23GEN-1038-Sunday-00_001200_1..S03R'',
      static_trip.route_id = ''1'', static_trip.direction_id = ''1'',
      static_trip.service_id = ''Sunday''\<rparr>"

definition example_observation :: "string \<Rightarrow> py_value \<Rightarrow> realtime_row" where
  "example_observation stop arrival =
     \<lparr>realtime_row.route_id = ''1'', realtime_row.trip_id = ''000600_1..S03R'',
      realtime_row.direction_id = ''1'', realtime_row.track_direction = ''Southbound'',
      realtime_row.stop_id = stop, realtime_row.stop_name = stop,
      realtime_row.start_date = 20240114, realtime_row.start_time = ''00:06:00'',
      realtime_row.actual_arrival = arrival, realtime_row.service_id = ''Sunday''\<rparr>"

definition example_stop_time :: "string \<Rightarrow> py_value \<Rightarrow> stop_time" where
  "example_stop_time stop arrival =
     \<lparr>stop_time.trip_id = ''AFA23GEN-1038-Sunday-00_000600_1..S03R'',
      stop_time.stop_id = stop, stop_time.scheduled_arrival = arrival\<rparr>"

definition example_realtime_df :: "realtime_row list" where
  "example_realtime_df =
     [example_observation ''101S'' (PyStr ''00:00:10''),
      example_observation ''103S'' (PyStr ''02:31:50''),
      example_observation ''104S'' PyNone]"

definition example_stop_times_df :: "stop_time list" where
  "example_stop_times_df =
     [example_stop_time ''101S'' (PyStr ''23:59:50''),
      example_stop_time ''103S'' (PyStr ''24:01:50''),
      example_stop_time ''104S'' (PyStr ''24:03:00'')]"

section \<open>Observation Store: \<^verbatim>\<open>init_databases\<close> and \<^verbatim>\<open>process_and_store_data\<close>\<close>

text \<open>
  A row of the table \<^verbatim>\<open>trip_updates\<close>, without the \<^verbatim>\<open>id\<close> that SQLite assigns: the
  nine values of \<^verbatim>\<open>data_tuple\<close>. A table is the list of its rows in the order of
  insertion. The two databases are the state.
\<close>

record trip_updates_row =
  route_id :: string
  trip_id :: string
  direction_id :: int
  track_direction :: string
  start_time :: string
  start_date :: string
  stop_name :: string
  arrival_time :: string
  departure_time :: string

record databases =
  realtime :: "trip_updates_row list"
  historical :: "trip_updates_row list"

text \<open>
  \<^verbatim>\<open>init_databases\<close>: \<^verbatim>\<open>CREATE TABLE IF NOT EXISTS\<close> makes two empty tables where there
  are none (\<open>None\<close>) and leaves existing tables as they are.
\<close>

definition init_databases :: "databases option \<Rightarrow> databases" where
  "init_databases files =
     (case files of None \<Rightarrow> \<lparr>realtime = [], historical = []\<rparr> | Some db \<Rightarrow> db)"

text \<open>
  The decoded feed, as \<^verbatim>\<open>process_and_store_data\<close> reads it from the protocol buffer
  message: an entity has a trip update or not; a trip update has the descriptor of
  the trip and the list of its stop time updates.
\<close>

record stop_time_update =
  stop_id :: string
  arrival_time :: int
  departure_time :: int

record trip_descriptor =
  route_id :: string
  trip_id :: string
  direction_id :: int
  start_time :: string
  start_date :: string

record trip_update =
  trip :: trip_descriptor
  stop_time_updates :: "stop_time_update list"

record feed_entity =
  trip_update :: "trip_update option"

text \<open>
  What \<^verbatim>\<open>process_and_store_data\<close> takes from outside the repository: the decoder
  \<^verbatim>\<open>ParseFromString\<close> (\<open>None\<close> when it raises), the text of
  \<^verbatim>\<open>str(datetime.fromtimestamp(t, tz=ZoneInfo("America/New_York")))\<close> (or the exception
  that \<^verbatim>\<open>fromtimestamp\<close> raises), and the stop names of \<^verbatim>\<open>stops.txt\<close> by stop id.
\<close>

record environment =
  ParseFromString :: "string \<Rightarrow> feed_entity list option"
  fromtimestamp_str :: "int \<Rightarrow> py_error + string"
  stops_df :: "string \<Rightarrow> string option"

definition endswith :: "string \<Rightarrow> char \<Rightarrow> bool" where
  "endswith s c = (s \<noteq> [] \<and> last s = c)"

definition track_direction_of :: "string \<Rightarrow> string" where
  "track_direction_of sid =
     (if endswith sid CHR ''N'' then ''Northbound''
      else if endswith sid CHR ''S'' then ''Southbound''
      else ''Unknown'')"

text \<open>
  The lookup of the stop name, with the stop id where the lookup fails. The names of
  \<^verbatim>\<open>stops.txt\<close> are text.
\<close>

definition stop_name_of :: "environment \<Rightarrow> string \<Rightarrow> string" where
  "stop_name_of env sid = (case stops_df env sid of Some name \<Rightarrow> name | None \<Rightarrow> sid)"

definition data_tuple ::
  "environment \<Rightarrow> trip_descriptor \<Rightarrow> stop_time_update \<Rightarrow> py_error + trip_updates_row" where
  "data_tuple env tr u =
     py_bind (fromtimestamp_str env (stop_time_update.arrival_time u)) (\<lambda>arrival_dt.
     py_bind (fromtimestamp_str env (stop_time_update.departure_time u)) (\<lambda>departure_dt.
       Inr \<lparr>trip_updates_row.route_id = trip_descriptor.route_id tr,
            trip_updates_row.trip_id = trip_descriptor.trip_id tr,
            trip_updates_row.direction_id = trip_descriptor.direction_id tr,
            trip_updates_row.track_direction = track_direction_of (stop_time_update.stop_id u),
            trip_updates_row.start_time = trip_descriptor.start_time tr,
            trip_updates_row.start_date = trip_descriptor.start_date tr,
            trip_updates_row.stop_name = stop_name_of env (stop_time_update.stop_id u),
            trip_updates_row.arrival_time = slice 11 19 arrival_dt,
            trip_updates_row.departure_time = slice 11 19 departure_dt\<rparr>))"

text \<open>
  The two statements. \<^verbatim>\<open>INSERT\<close> appends the row. The historical table has
  \<^verbatim>\<open>UNIQUE(trip_id, start_date, stop_name)\<close>, and \<^verbatim>\<open>INSERT OR IGNORE\<close> skips a row
  whose three values are those of a stored row; the three columns hold text, never
  NULL.
\<close>

definition natural_key :: "trip_updates_row \<Rightarrow> string \<times> string \<times> string" where
  "natural_key r =
     (trip_updates_row.trip_id r, trip_updates_row.start_date r, trip_updates_row.stop_name r)"

definition insert_realtime :: "trip_updates_row \<Rightarrow> databases \<Rightarrow> databases" where
  "insert_realtime row db = db\<lparr>realtime := realtime db @ [row]\<rparr>"

definition insert_or_ignore :: "trip_updates_row \<Rightarrow> trip_updates_row list \<Rightarrow> trip_updates_row list" where
  "insert_or_ignore row table =
     (if natural_key row \<in> set (map natural_key table) then table else table @ [row])"

definition insert_historical :: "trip_updates_row \<Rightarrow> databases \<Rightarrow> databases" where
  "insert_historical row db = db\<lparr>historical := insert_or_ignore row (historical db)\<rparr>"

text \<open>The three loops, innermost first; the state is the two uncommitted tables.\<close>

fun store_stop_time_updates ::
  "environment \<Rightarrow> trip_descriptor \<Rightarrow> stop_time_update list \<Rightarrow> databases \<Rightarrow> py_error + databases" where
  "store_stop_time_updates env tr [] db = Inr db"
| "store_stop_time_updates env tr (u # us) db =
     py_bind (data_tuple env tr u) (\<lambda>row.
       store_stop_time_updates env tr us (insert_historical row (insert_realtime row db)))"

fun store_entities :: "environment \<Rightarrow> feed_entity list \<Rightarrow> databases \<Rightarrow> py_error + databases" where
  "store_entities env [] db = Inr db"
| "store_entities env (entity # es) db =
     (case trip_update entity of
        Some tu \<Rightarrow>
          py_bind (store_stop_time_updates env (trip tu) (stop_time_updates tu) db)
            (store_entities env es)
      | None \<Rightarrow> store_entities env es db)"

fun store_responses :: "environment \<Rightarrow> string option list \<Rightarrow> databases \<Rightarrow> py_error + databases" where
  "store_responses env [] db = Inr db"
| "store_responses env (response # rs) db =
     (case response of
        None \<Rightarrow> store_responses env rs db
      | Some bytes \<Rightarrow>
          if bytes = [] then store_responses env rs db
          else (case ParseFromString env bytes of
                  None \<Rightarrow> store_responses env rs db
                | Some feed \<Rightarrow> py_bind (store_entities env feed db) (store_responses env rs)))"

text \<open>
  \<^verbatim>\<open>process_and_store_data\<close>: the result \<open>Inr db\<close> is the committed state. An exception
  leaves the function before the two \<^verbatim>\<open>commit\<close> calls, so nothing of the cycle is
  stored.
\<close>

definition process_and_store_data ::
  "environment \<Rightarrow> string option list \<Rightarrow> databases \<Rightarrow> py_error + databases" where
  "process_and_store_data env responses db = store_responses env responses (db\<lparr>realtime := []\<rparr>)"

text \<open>
  A run of the application with a refresh: \<^verbatim>\<open>init_databases\<close>, then the cycle. After
  an exception the files hold what they held before the cycle. The state after a
  sequence of runs starts from no files.
\<close>

definition ingestion_cycle :: "environment \<Rightarrow> string option list \<Rightarrow> databases option \<Rightarrow> databases" where
  "ingestion_cycle env responses files =
     (let db = init_databases files
      in case process_and_store_data env responses db of Inr db' \<Rightarrow> db' | Inl e \<Rightarrow> db)"

definition ingestion_cycles :: "environment \<Rightarrow> string option list list \<Rightarrow> databases option" where
  "ingestion_cycles env cycles =
     foldl (\<lambda>files responses. Some (ingestion_cycle env responses files)) None cycles"

text \<open>
  For the statement about the snapshot: the entities decoded from a response (none
  for a missing or empty response and for one that the decoder refuses), the
  observations of an entity, and the observations decoded in a cycle, in the order of
  the responses, entities and stop time updates. An observation is \<open>Inr\<close> of its row,
  or \<open>Inl\<close> of the exception of its time conversion.
\<close>

definition response_feed :: "environment \<Rightarrow> string option \<Rightarrow> feed_entity list" where
  "response_feed env response =
     (case response of
        None \<Rightarrow> []
      | Some bytes \<Rightarrow>
          if bytes = [] then []
          else (case ParseFromString env bytes of None \<Rightarrow> [] | Some feed \<Rightarrow> feed))"

definition entity_observations :: "environment \<Rightarrow> feed_entity \<Rightarrow> (py_error + trip_updates_row) list" where
  "entity_observations env entity =
     (case trip_update entity of
        None \<Rightarrow> []
      | Some tu \<Rightarrow> map (data_tuple env (trip tu)) (stop_time_updates tu))"

definition decoded_observations :: "environment \<Rightarrow> string option list \<Rightarrow> (py_error + trip_updates_row) list" where
  "decoded_observations env responses =
     concat (map (entity_observations env) (concat (map (response_feed env) responses)))"

text \<open>
  For the statement about the historical log: no two rows of a table have the same
  natural key; the same for the files of the two databases, when there are any.
\<close>

definition unique_keys :: "trip_updates_row list \<Rightarrow> bool" where
  "unique_keys table = distinct (map natural_key table)"


text \<open>
  Example data for the store: a decoder that knows one feed, with one trip update of
  two stop time updates and one entity without a trip update; a conversion of times
  that returns one text; one stop name.
\<close>

definition example_feed :: "feed_entity list" where
  "example_feed =
     [\<lparr>trip_update = Some
         \<lparr>trip = \<lparr>trip_descriptor.route_id = ''1'', trip_descriptor.trip_id = ''000600_1..S03R'',
                   trip_descriptor.direction_id = 1, trip_descriptor.start_time = ''00:06:00'',
                   trip_descriptor.start_date = ''20240114''\<rparr>,
          stop_time_updates =
            [\<lparr>stop_time_update.stop_id = ''101S'', stop_time_update.arrival_time = 1705208410,
              stop_time_update.departure_time = 1705208410\<rparr>,
             \<lparr>stop_time_update.stop_id = ''103'', stop_time_update.arrival_time = 1705208410,
              stop_time_update.departure_time = 1705208410\<rparr>]\<rparr>\<rparr>,
      \<lparr>trip_update = None\<rparr>]"

definition example_env :: environment where
  "example_env =
     \<lparr>ParseFromString = (\<lambda>bytes. if bytes = ''feed'' then Some example_feed else None),
      fromtimestamp_str = (\<lambda>t. Inr ''2024-01-14 00:00:10-05:00''),
      stops_df = (\<lambda>sid. if sid = ''101S'' then Some ''Van Cortlandt Park-242 St'' else None)\<rparr>"

definition example_row :: "string \<Rightarrow> string \<Rightarrow> trip_updates_row" where
  "example_row direction name =
     \<lparr>trip_updates_row.route_id = ''1'', trip_updates_row.trip_id = ''000600_1..S03R'',
      trip_updates_row.direction_id = 1, trip_updates_row.track_direction = direction,
      trip_updates_row.start_time = ''00:06:00'', trip_updates_row.start_date = ''20240114'',
      trip_updates_row.stop_name = name, trip_updates_row.arrival_time = ''00:00:10'',
      trip_updates_row.departure_time = ''00:00:10''\<rparr>"

section \<open>Properties of the Time Normalizer\<close>

lemma in_range_digit: "in_range lo hi c \<Longrightarrow> hi \<le> 9 \<Longrightarrow> is_digit c"
  by (simp add: in_range_def is_digit_def)

lemma alt2_elem:
  assumes "(v, r) \<in> set (alt2 p q s)" "\<And>c. p c \<Longrightarrow> is_digit c" "\<And>c. q c \<Longrightarrow> is_digit c"
  shows "\<exists>ds. s = ds @ r \<and> digit_field ds v"
proof (cases s)
  case Nil
  with assms(1) show ?thesis by (simp add: alt2_def)
next
  case (Cons a s')
  show ?thesis
  proof (cases s')
    case Nil
    with Cons assms(1) show ?thesis by (simp add: alt2_def)
  next
    case (Cons b r')
    with \<open>s = a # s'\<close> assms(1) have "p a" "q b" "r = r'" "v = 10 * digit_val a + digit_val b"
      by (auto simp: alt2_def split: if_splits)
    with assms(2,3) have "s = [a, b] @ r \<and> digit_field [a, b] v"
      using Cons \<open>s = a # s'\<close> by (simp add: digit_field_def)
    then show ?thesis by blast
  qed
qed

lemma alt1_elem:
  assumes "(v, r) \<in> set (alt1 s)"
  shows "\<exists>ds. s = ds @ r \<and> digit_field ds v"
proof (cases s)
  case Nil
  with assms show ?thesis by (simp add: alt1_def)
next
  case (Cons a r')
  with assms have "s = [a] @ r \<and> digit_field [a] v"
    by (auto simp: alt1_def digit_field_def split: if_splits)
  then show ?thesis by blast
qed

lemma match_H_elem:
  assumes "(v, r) \<in> set (match_H s)"
  shows "\<exists>ds. s = ds @ r \<and> digit_field ds v"
proof -
  from assms consider "(v, r) \<in> set (alt2 (in_range 2 2) (in_range 0 3) s)"
    | "(v, r) \<in> set (alt2 (in_range 0 1) is_digit s)" | "(v, r) \<in> set (alt1 s)"
    by (auto simp: match_H_def)
  then show ?thesis
  proof cases
    case 1
    then show ?thesis by (rule alt2_elem) (simp_all add: in_range_digit)
  next
    case 2
    then show ?thesis by (rule alt2_elem) (simp_all add: in_range_digit)
  next
    case 3
    then show ?thesis by (rule alt1_elem)
  qed
qed

lemma match_M_elem:
  assumes "(v, r) \<in> set (match_M s)"
  shows "\<exists>ds. s = ds @ r \<and> digit_field ds v"
proof -
  from assms consider "(v, r) \<in> set (alt2 (in_range 0 5) is_digit s)" | "(v, r) \<in> set (alt1 s)"
    by (auto simp: match_M_def)
  then show ?thesis
  proof cases
    case 1
    then show ?thesis by (rule alt2_elem) (simp_all add: in_range_digit)
  next
    case 2
    then show ?thesis by (rule alt1_elem)
  qed
qed

lemma match_S_elem:
  assumes "(v, r) \<in> set (match_S s)"
  shows "\<exists>ds. s = ds @ r \<and> digit_field ds v"
proof -
  from assms consider "(v, r) \<in> set (alt2 (in_range 6 6) (in_range 0 1) s)"
    | "(v, r) \<in> set (alt2 (in_range 0 5) is_digit s)" | "(v, r) \<in> set (alt1 s)"
    by (auto simp: match_S_def)
  then show ?thesis
  proof cases
    case 1
    then show ?thesis by (rule alt2_elem) (simp_all add: in_range_digit)
  next
    case 2
    then show ?thesis by (rule alt2_elem) (simp_all add: in_range_digit)
  next
    case 3
    then show ?thesis by (rule alt1_elem)
  qed
qed

lemma match_colon_elem: "r \<in> set (match_colon s) \<Longrightarrow> s = CHR '':'' # r"
  by (auto simp: match_colon_def split: list.splits if_splits)

lemma regex_HMS_elem:
  assumes "(h, m, sec, r3) \<in> set (regex_HMS s)"
  shows "\<exists>d1 d2 d3. s = d1 @ CHR '':'' # d2 @ CHR '':'' # d3 @ r3 \<and>
           digit_field d1 h \<and> digit_field d2 m \<and> digit_field d3 sec \<and>
           (h, CHR '':'' # d2 @ CHR '':'' # d3 @ r3) \<in> set (match_H s) \<and>
           (m, CHR '':'' # d3 @ r3) \<in> set (match_M (d2 @ CHR '':'' # d3 @ r3)) \<and>
           (sec, r3) \<in> set (match_S (d3 @ r3))"
proof -
  from assms obtain r1 r1' r2 r2' where
    H: "(h, r1) \<in> set (match_H s)" and c1: "r1' \<in> set (match_colon r1)" and
    M: "(m, r2) \<in> set (match_M r1')" and c2: "r2' \<in> set (match_colon r2)" and
    S: "(sec, r3) \<in> set (match_S r2')"
    by (auto simp: regex_HMS_def)
  from match_H_elem [OF H] obtain d1 where d1: "s = d1 @ r1" "digit_field d1 h" by blast
  from match_M_elem [OF M] obtain d2 where d2: "r1' = d2 @ r2" "digit_field d2 m" by blast
  from match_S_elem [OF S] obtain d3 where d3: "r2' = d3 @ r3" "digit_field d3 sec" by blast
  from match_colon_elem [OF c1] match_colon_elem [OF c2] d1 d2 d3 H M S
  show ?thesis by auto
qed


lemma alt2_bound:
  assumes "(v, r) \<in> set (alt2 (in_range l1 h1) q s)" "\<And>c. q c \<Longrightarrow> in_range 0 h2 c"
  shows "v \<le> 10 * h1 + h2"
  using assms(1) assms(2)
  by (cases s; cases "tl s") (auto simp: alt2_def in_range_def digit_val_def split: if_splits dest!: assms(2))

lemma is_digit_in_range: "is_digit c \<Longrightarrow> in_range 0 9 c"
  by (simp add: in_range_def is_digit_def)

lemma alt1_bound: "(v, r) \<in> set (alt1 s) \<Longrightarrow> v \<le> 9"
  by (cases s) (auto simp: alt1_def is_digit_def digit_val_def split: if_splits)

lemma match_H_bound: "(v, r) \<in> set (match_H s) \<Longrightarrow> v < 24"
  using alt2_bound [of v r 2 2 "in_range 0 3" s 3] alt2_bound [of v r 0 1 is_digit s 9]
    alt1_bound [of v r s]
  by (auto simp: match_H_def is_digit_in_range)

lemma match_M_bound: "(v, r) \<in> set (match_M s) \<Longrightarrow> v < 60"
  using alt2_bound [of v r 0 5 is_digit s 9] alt1_bound [of v r s]
  by (auto simp: match_M_def is_digit_in_range)

lemma strptime_HMS_Inr:
  assumes "strptime_HMS s = Inr t"
  shows "\<exists>d1 d2 d3. s = d1 @ CHR '':'' # d2 @ CHR '':'' # d3 \<and>
           digit_field d1 (hour t) \<and> digit_field d2 (minute t) \<and> digit_field d3 (second t) \<and>
           hour t < 24 \<and> minute t < 60 \<and> second t < 60"
proof -
  from assms obtain h m sec rest where
    first: "regex_HMS s = (h, m, sec, []) # rest" and sec: "sec \<le> 59" and
    t: "t = \<lparr>hour = h, minute = m, second = sec\<rparr>"
    by (auto simp: strptime_HMS_def split: list.splits if_splits)
  then have "(h, m, sec, []) \<in> set (regex_HMS s)" by simp
  from regex_HMS_elem [OF this] obtain d1 d2 d3 where
    "s = d1 @ CHR '':'' # d2 @ CHR '':'' # d3" "digit_field d1 h" "digit_field d2 m"
    "digit_field d3 sec" "h < 24" "m < 60"
    by (auto dest: match_H_bound match_M_bound)
  with sec t show ?thesis by auto
qed

lemma strptime_HMS_Inl: "strptime_HMS s = Inl e \<Longrightarrow> e = ValueError"
  by (auto simp: strptime_HMS_def split: list.splits if_splits)


lemma split_char_no_sep: "c \<notin> set xs \<Longrightarrow> split_char c xs = [xs]"
  by (induction xs) auto

lemma split_char_nonempty: "split_char c xs \<noteq> []"
  by (induction xs) (auto split: list.splits)

lemma split_char_append:
  "c \<notin> set xs \<Longrightarrow> split_char c (xs @ c # ys) = xs # split_char c ys"
  by (induction xs) (auto split: list.splits)

lemma digit_not_colon: "is_digit a \<Longrightarrow> a \<noteq> CHR '':''"
  by (auto simp: is_digit_def)

lemma digit_not_space: "is_digit a \<Longrightarrow> \<not> is_space a"
  by (auto simp: is_digit_def is_space_def)

lemma digit_not_sign: "is_digit a \<Longrightarrow> a \<noteq> CHR ''-'' \<and> a \<noteq> CHR ''+''"
  by (auto simp: is_digit_def)

lemma digit_field_cases:
  assumes "digit_field ds v"
  obtains a where "ds = [a]" "is_digit a" "v = digit_val a"
  | a b where "ds = [a, b]" "is_digit a" "is_digit b" "v = 10 * digit_val a + digit_val b"
  using assms by (auto simp: digit_field_def split: list.splits)

lemma digit_field_no_colon: "digit_field ds v \<Longrightarrow> CHR '':'' \<notin> set ds"
  by (erule digit_field_cases) (auto dest: digit_not_colon)

lemma py_int_digit_field: "digit_field ds v \<Longrightarrow> py_int ds = Inr (int v)"
  by (erule digit_field_cases)
    (auto simp: py_int_def strip_def int_unsigned_def int_max_str_digits_def
      dest: digit_not_space digit_not_sign)

lemma split_three_fields:
  assumes "digit_field d1 h" "digit_field d2 m" "digit_field d3 s"
  shows "split_char CHR '':'' (d1 @ CHR '':'' # d2 @ CHR '':'' # d3) = [d1, d2, d3]"
  using assms by (simp add: split_char_append split_char_no_sep digit_field_no_colon)

lemma strptime_three_int_fields:
  assumes "strptime_HMS s = Inr t"
  shows "three_int_fields s"
proof -
  from strptime_HMS_Inr [OF assms] obtain d1 d2 d3 where
    s: "s = d1 @ CHR '':'' # d2 @ CHR '':'' # d3" and
    d: "digit_field d1 (hour t)" "digit_field d2 (minute t)" "digit_field d3 (second t)"
    by blast
  from d have "split_char CHR '':'' s = [d1, d2, d3]"
    unfolding s by (rule split_three_fields)
  with d show ?thesis
    by (simp add: three_int_fields_def py_int_digit_field)
qed

lemma py_int_cases: "py_int s = Inl ValueError \<or> (\<exists>v. py_int s = Inr v)"
  by (auto simp: py_int_def Let_def split: option.splits)

lemma extended_hour_parse_fails:
  assumes "\<not> three_int_fields s"
  shows "extended_hour_parse s = Inl ValueError \<or> extended_hour_parse s = Inl IndexError"
proof -
  define parts where "parts = split_char CHR '':'' s"
  have ne: "0 < length parts"
    using split_char_nonempty [of "CHR '':''" s] by (simp add: parts_def)
  consider (a) "py_int (parts ! 0) = Inl ValueError"
    | (b) v0 where "py_int (parts ! 0) = Inr v0" "length parts < 2"
    | (c) v0 where "py_int (parts ! 0) = Inr v0" "2 \<le> length parts" "py_int (parts ! 1) = Inl ValueError"
    | (d) v0 v1 where "py_int (parts ! 0) = Inr v0" "py_int (parts ! 1) = Inr v1" "length parts = 2"
    | (e) v0 v1 where "py_int (parts ! 0) = Inr v0" "py_int (parts ! 1) = Inr v1" "3 \<le> length parts"
        "py_int (parts ! 2) = Inl ValueError"
    using assms py_int_cases [of "parts ! 0"] py_int_cases [of "parts ! 1"]
      py_int_cases [of "parts ! 2"]
    unfolding three_int_fields_def parts_def [symmetric] Let_def
    by (metis Suc_1 eval_nat_numeral(3) leI less_Suc_eq_le less_antisym)
  then show ?thesis
    using ne
    by cases (simp_all add: extended_hour_parse_def parts_def [symmetric] py_bind_def parts_get_def)
qed

lemma extended_hour_parse_ok:
  assumes "three_int_fields s"
  shows "extended_hour_parse s \<noteq> Inl ValueError \<and> extended_hour_parse s \<noteq> Inl IndexError"
proof -
  define parts where "parts = split_char CHR '':'' s"
  from assms obtain v0 v1 v2 where
    "3 \<le> length parts" "py_int (parts ! 0) = Inr v0" "py_int (parts ! 1) = Inr v1"
    "py_int (parts ! 2) = Inr v2"
    using py_int_cases [of "parts ! 0"] py_int_cases [of "parts ! 1"]
      py_int_cases [of "parts ! 2"]
    unfolding three_int_fields_def parts_def [symmetric] Let_def by auto
  then show ?thesis
    by (auto simp: extended_hour_parse_def parts_def [symmetric] py_bind_def parts_get_def
        timedelta_def datetime_min_add_def Let_def)
qed

lemma robust_time_parser_None_iff:
  "robust_time_parser (PyStr s) = Inr None \<longleftrightarrow> \<not> three_int_fields s"
proof (cases "strptime_HMS s")
  case (Inr t)
  then show ?thesis
    using strptime_three_int_fields [OF Inr] by (simp add: robust_time_parser_def)
next
  case (Inl e)
  then have e: "e = ValueError" by (rule strptime_HMS_Inl)
  show ?thesis
    using extended_hour_parse_fails [of s] extended_hour_parse_ok [of s] Inl e
    by (cases "three_int_fields s")
       (auto simp: robust_time_parser_def split: sum.splits)
qed


lemma digit_char_digit:
  assumes "k < 10"
  shows "is_digit (digit_char k) \<and> digit_val (digit_char k) = k"
proof -
  from assms consider "k = 0" | "k = 1" | "k = 2" | "k = 3" | "k = 4" | "k = 5" | "k = 6"
    | "k = 7" | "k = 8" | "k = 9"
    by atomize_elim arith
  then show ?thesis
    by cases (simp_all add: digit_char_def is_digit_def digit_val_def)
qed

lemma two_digits_field: "n < 100 \<Longrightarrow> digit_field (two_digits n) n"
  using digit_char_digit [of "n div 10"] digit_char_digit [of "n mod 10"]
  by (simp add: two_digits_def digit_field_def)

lemma wrap_seconds:
  fixes h m s :: int
  assumes "0 \<le> h" "0 \<le> m" "m < 60" "0 \<le> s" "s < 60"
  shows "(3600 * h + 60 * m + s) mod 86400 = 3600 * (h mod 24) + 60 * m + s"
proof -
  have "h = 24 * (h div 24) + h mod 24" by simp
  then have "3600 * h = 86400 * (h div 24) + 3600 * (h mod 24)" by presburger
  then have "3600 * h + 60 * m + s = (3600 * (h mod 24) + 60 * m + s) + 86400 * (h div 24)"
    by simp
  then have "(3600 * h + 60 * m + s) mod 86400 = (3600 * (h mod 24) + 60 * m + s) mod 86400"
    by (simp only: mod_mult_self2)
  moreover have "0 \<le> 3600 * (h mod 24) + 60 * m + s" "3600 * (h mod 24) + 60 * m + s < 86400"
    using assms pos_mod_bound [of 24 h] pos_mod_sign [of 24 h] by auto
  ultimately show ?thesis by simp
qed

lemma match_H_two_early:
  assumes "is_digit a" "is_digit b" "10 * digit_val a + digit_val b < 24"
  shows "match_H (a # b # r) = [(10 * digit_val a + digit_val b, r), (digit_val a, b # r)]"
proof -
  from assms have "(of_char a = (50::nat) \<and> of_char b \<le> (51::nat)) \<or> of_char a \<le> (49::nat)"
    by (simp add: is_digit_def digit_val_def) arith
  then show ?thesis
    using assms(1,2)
    by (auto simp: match_H_def alt2_def alt1_def in_range_def is_digit_def)
qed

lemma match_H_two_late:
  assumes "is_digit a" "is_digit b" "24 \<le> 10 * digit_val a + digit_val b"
  shows "match_H (a # b # r) = [(digit_val a, b # r)]"
proof -
  from assms have "(of_char a = (50::nat) \<and> (52::nat) \<le> of_char b) \<or> (51::nat) \<le> of_char a"
    by (simp add: is_digit_def digit_val_def) arith
  then show ?thesis
    using assms(1,2)
    by (auto simp: match_H_def alt2_def alt1_def in_range_def is_digit_def)
qed

lemma match_M_two:
  assumes "is_digit c" "is_digit d" "10 * digit_val c + digit_val d < 60"
  shows "match_M (c # d # r) = [(10 * digit_val c + digit_val d, r), (digit_val c, d # r)]"
proof -
  from assms have "of_char c \<le> (53::nat)"
    by (simp add: is_digit_def digit_val_def) arith
  then show ?thesis
    using assms(1,2)
    by (auto simp: match_M_def alt2_def alt1_def in_range_def is_digit_def)
qed

lemma match_S_two:
  assumes "is_digit e" "is_digit f" "10 * digit_val e + digit_val f < 60"
  shows "match_S (e # f # r) = [(10 * digit_val e + digit_val f, r), (digit_val e, f # r)]"
proof -
  from assms have "of_char e \<le> (53::nat)"
    by (simp add: is_digit_def digit_val_def) arith
  then show ?thesis
    using assms(1,2)
    by (auto simp: match_S_def alt2_def alt1_def in_range_def is_digit_def)
qed

lemma match_colon_digit: "is_digit b \<Longrightarrow> match_colon (b # r) = []"
  by (auto simp: match_colon_def dest: digit_not_colon)

lemma strptime_two_digit_ok:
  assumes "is_digit a" "is_digit b" "is_digit c" "is_digit d" "is_digit e" "is_digit f"
    and "10 * digit_val a + digit_val b < 24" "10 * digit_val c + digit_val d < 60"
    and "10 * digit_val e + digit_val f < 60"
  shows "strptime_HMS [a, b, CHR '':'', c, d, CHR '':'', e, f] =
           Inr \<lparr>hour = 10 * digit_val a + digit_val b, minute = 10 * digit_val c + digit_val d,
                second = 10 * digit_val e + digit_val f\<rparr>"
  using assms(9)
  by (simp add: strptime_HMS_def regex_HMS_def match_H_two_early [OF assms(1,2,7)]
      match_M_two [OF assms(3,4,8)] match_S_two [OF assms(5,6,9)]
      match_colon_digit [OF assms(2)] match_colon_digit [OF assms(4)] match_colon_def)

lemma strptime_two_digit_late:
  assumes "is_digit a" "is_digit b" "24 \<le> 10 * digit_val a + digit_val b"
  shows "strptime_HMS (a # b # r) = Inl ValueError"
  by (simp add: strptime_HMS_def regex_HMS_def match_H_two_late [OF assms]
      match_colon_digit [OF assms(2)])

lemma hms_div_mod:
  fixes h m s :: int
  assumes "0 \<le> m" "m < 60" "0 \<le> s" "s < 60"
  shows "(3600 * h + 60 * m + s) div 3600 = h"
    and "(3600 * h + 60 * m + s) mod 3600 div 60 = m"
    and "(3600 * h + 60 * m + s) mod 60 = s"
proof -
  have r: "0 \<le> 60 * m + s" "60 * m + s < 3600" using assms by auto
  have e: "3600 * h + 60 * m + s = (60 * m + s) + 3600 * h" by simp
  show "(3600 * h + 60 * m + s) div 3600 = h"
    unfolding e using r by simp
  have "(3600 * h + 60 * m + s) mod 3600 = 60 * m + s"
    unfolding e using r by simp
  moreover have "(60 * m + s) div 60 = m"
    using assms by simp
  ultimately show "(3600 * h + 60 * m + s) mod 3600 div 60 = m" by simp
  have "3600 * h + 60 * m + s = s + 60 * (60 * h + m)" by simp
  then have "(3600 * h + 60 * m + s) mod 60 = s mod 60"
    by (simp only: mod_mult_self2)
  then show "(3600 * h + 60 * m + s) mod 60 = s" using assms by simp
qed

lemma extended_two_digit:
  assumes "is_digit a" "is_digit b" "is_digit c" "is_digit d" "is_digit e" "is_digit f"
    and "10 * digit_val c + digit_val d < 60" "10 * digit_val e + digit_val f < 60"
  shows "extended_hour_parse [a, b, CHR '':'', c, d, CHR '':'', e, f] =
           Inr \<lparr>hour = (10 * digit_val a + digit_val b) mod 24,
                minute = 10 * digit_val c + digit_val d,
                second = 10 * digit_val e + digit_val f\<rparr>"
proof -
  define h m s where "h = 10 * digit_val a + digit_val b" and "m = 10 * digit_val c + digit_val d"
    and "s = 10 * digit_val e + digit_val f"
  have f: "digit_field [a, b] h" "digit_field [c, d] m" "digit_field [e, f] s"
    using assms(1-6) by (simp_all add: digit_field_def h_def m_def s_def)
  have sp: "split_char CHR '':'' [a, b, CHR '':'', c, d, CHR '':'', e, f] = [[a, b], [c, d], [e, f]]"
    using split_three_fields [OF f] by simp
  have h100: "h < 100"
    using assms(1,2) unfolding h_def is_digit_def digit_val_def by arith
  have ms: "m < 60" "s < 60" using assms(7,8) by (simp_all add: m_def s_def)
  let ?total = "3600 * int h + 60 * int m + int s"
  have w: "?total mod 86400 = 3600 * (int h mod 24) + 60 * int m + int s"
    using ms by (intro wrap_seconds) simp_all
  have d: "0 \<le> ?total div 86400" "?total div 86400 < 5"
    using h100 ms by simp_all
  have td: "timedelta (int h) (int m) (int s) = Inr (?total div 86400, ?total mod 86400)"
    using d by (simp add: timedelta_def Let_def)
  have dm: "datetime_min_add (?total div 86400, ?total mod 86400) =
      Inr (1 + ?total div 86400, ?total mod 86400)"
    using d by (simp add: datetime_min_add_def max_ordinal_def Let_def)
  have hm: "0 \<le> int h mod 24" "int h mod 24 < 24" by simp_all
  have t: "time_of (1 + ?total div 86400, ?total mod 86400) =
      \<lparr>hour = h mod 24, minute = m, second = s\<rparr>"
  proof -
    have "nat (int h mod 24) = h mod 24"
      by (simp add: nat_mod_distrib)
    then show ?thesis
      unfolding time_of_def snd_conv w using ms
      by (simp add: hms_div_mod)
  qed
  show ?thesis
    unfolding extended_hour_parse_def sp Let_def
    by (simp add: parts_get_def py_bind_def py_int_digit_field [OF f(1)]
        py_int_digit_field [OF f(2)] py_int_digit_field [OF f(3)] td dm t
        h_def [symmetric] m_def [symmetric] s_def [symmetric])
qed

lemma time_of_valid:
  assumes "0 \<le> y" "y < 86400"
  shows "hour (time_of (d, y)) < 24 \<and> minute (time_of (d, y)) < 60 \<and> second (time_of (d, y)) < 60"
proof -
  have "y div 3600 \<le> 86399 div 3600"
    using assms by (intro zdiv_mono1) simp_all
  then have "y div 3600 < 24" by simp
  moreover have "y mod 3600 div 60 \<le> 3599 div 60"
    by (intro zdiv_mono1) simp_all
  then have "y mod 3600 div 60 < 60" by simp
  moreover have "y mod 60 < 60" by simp
  ultimately show ?thesis
    by (simp add: time_of_def nat_less_iff)
qed

lemma py_bind_Inr: "py_bind m f = Inr y \<longleftrightarrow> (\<exists>x. m = Inr x \<and> f x = Inr y)"
  by (cases m) (simp_all add: py_bind_def)

lemma timedelta_Inr: "timedelta h m s = Inr td \<Longrightarrow> 0 \<le> snd td \<and> snd td < 86400"
  by (auto simp: timedelta_def Let_def split: if_splits)

lemma datetime_min_add_Inr: "datetime_min_add td = Inr dt \<Longrightarrow> snd dt = snd td"
  by (auto simp: datetime_min_add_def Let_def split: if_splits)

lemma extended_hour_parse_valid:
  assumes "extended_hour_parse s = Inr t"
  shows "hour t < 24 \<and> minute t < 60 \<and> second t < 60"
proof -
  from assms obtain h m sec td dt where
    td: "timedelta h m sec = Inr td" and dt: "datetime_min_add td = Inr dt" and t: "t = time_of dt"
    unfolding extended_hour_parse_def Let_def py_bind_Inr by blast
  from timedelta_Inr [OF td] datetime_min_add_Inr [OF dt]
  have "0 \<le> snd dt" "snd dt < 86400" by simp_all
  then show ?thesis
    using time_of_valid [of "snd dt" "fst dt"] t by simp
qed

lemmas parser_eval =
  robust_time_parser_def strptime_HMS_def regex_HMS_def match_H_def match_M_def match_S_def
  match_colon_def alt1_def alt2_def in_range_def is_digit_def digit_val_def
  extended_hour_parse_def py_bind_def parts_get_def py_int_def strip_def is_space_def
  int_unsigned_def int_max_str_digits_def timedelta_def datetime_min_add_def max_ordinal_def
  time_of_def

lemma two_digits_digits:
  assumes "n < 100"
  shows "\<exists>a b. two_digits n = [a, b] \<and> is_digit a \<and> is_digit b \<and> 10 * digit_val a + digit_val b = n"
  using digit_char_digit [of "n div 10"] digit_char_digit [of "n mod 10"] assms
  by (simp add: two_digits_def)

lemma robust_time_parser_clock:
  assumes "h < 100" "m < 60" "s < 60"
  shows "robust_time_parser (PyStr (clock_string h m s)) =
           Inr (Some \<lparr>hour = h mod 24, minute = m, second = s\<rparr>)"
proof -
  from two_digits_digits [of h] assms obtain a b where
    h: "two_digits h = [a, b]" "is_digit a" "is_digit b" "10 * digit_val a + digit_val b = h"
    by auto
  from two_digits_digits [of m] assms obtain c d where
    m: "two_digits m = [c, d]" "is_digit c" "is_digit d" "10 * digit_val c + digit_val d = m"
    by auto
  from two_digits_digits [of s] assms obtain e f where
    s: "two_digits s = [e, f]" "is_digit e" "is_digit f" "10 * digit_val e + digit_val f = s"
    by auto
  have cs: "clock_string h m s = [a, b, CHR '':'', c, d, CHR '':'', e, f]"
    by (simp add: clock_string_def h m s)
  show ?thesis
  proof (cases "h < 24")
    case True
    then have "strptime_HMS (clock_string h m s) = Inr \<lparr>hour = h, minute = m, second = s\<rparr>"
      unfolding cs
      using strptime_two_digit_ok [of a b c d e f] h m s assms by simp
    with True show ?thesis by (simp add: robust_time_parser_def)
  next
    case False
    then have "strptime_HMS (clock_string h m s) = Inl ValueError"
      unfolding cs using strptime_two_digit_late [of a b] h by simp
    moreover have "extended_hour_parse (clock_string h m s) =
        Inr \<lparr>hour = h mod 24, minute = m, second = s\<rparr>"
      unfolding cs using extended_two_digit [of a b c d e f] h m s assms by simp
    ultimately show ?thesis by (simp add: robust_time_parser_def)
  qed
qed

lemma robust_time_parser_valid:
  assumes "robust_time_parser v = Inr (Some t)"
  shows "hour t < 24 \<and> minute t < 60 \<and> second t < 60"
proof (cases v)
  case (PyStr s)
  show ?thesis
  proof (cases "strptime_HMS s")
    case (Inr t')
    with assms PyStr have "t' = t" by (simp add: robust_time_parser_def)
    with strptime_HMS_Inr [OF Inr] show ?thesis by blast
  next
    case (Inl e)
    with assms PyStr have "extended_hour_parse s = Inr t"
      by (auto simp: robust_time_parser_def split: if_splits sum.splits)
    then show ?thesis by (rule extended_hour_parse_valid)
  qed
qed (use assms in \<open>simp_all add: robust_time_parser_def\<close>)

lemma extended_hour_parse_Inl:
  "extended_hour_parse s = Inl e \<Longrightarrow> e = ValueError \<or> e = IndexError \<or> e = OverflowError"
  by (cases e) simp_all

lemma robust_time_parser_cases:
  "robust_time_parser v = Inr None \<or> (\<exists>t. robust_time_parser v = Inr (Some t)) \<or>
   robust_time_parser v = Inl OverflowError"
proof (cases "robust_time_parser v")
  case (Inl e)
  then have "e = OverflowError"
    by (cases v; cases e)
       (auto simp: robust_time_parser_def split: sum.splits if_splits dest: strptime_HMS_Inl)
  with Inl show ?thesis by simp
next
  case (Inr r)
  then show ?thesis by (cases r) simp_all
qed

lemma parse_070509:
  "robust_time_parser (PyStr ''07:05:09'') = Inr (Some \<lparr>hour = 7, minute = 5, second = 9\<rparr>)"
  by (simp add: parser_eval)

lemma parse_251000:
  "robust_time_parser (PyStr ''25:10:00'') = Inr (Some \<lparr>hour = 1, minute = 10, second = 0\<rparr>)"
  by (simp add: parser_eval)

lemma parse_759:
  "robust_time_parser (PyStr ''7:5:9'') = Inr (Some \<lparr>hour = 7, minute = 5, second = 9\<rparr>)"
  by (simp add: parser_eval)

lemma parse_minus_one:
  "robust_time_parser (PyStr ''-1:00:00'') = Inl OverflowError"
  by (simp add: parser_eval)

section \<open>Properties of the Delay Calculator\<close>

lemma calculate_delay_parsed:
  assumes "robust_time_parser (delay_row.scheduled_arrival row) = Inr (Some ts)"
    and "robust_time_parser (delay_row.actual_arrival row) = Inr (Some ta)"
    and "1 \<le> today" "today < max_ordinal"
  shows "calculate_delay today row =
           Inr (Some (if 43200 < time_secs ts - time_secs ta
                      then time_secs ta + 86400 - time_secs ts
                      else time_secs ta - time_secs ts))"
  using assms
  by (simp add: calculate_delay_def py_bind_def combine_def dt_less_def total_seconds_diff_def
      add_days_def Let_def)

lemma time_secs_bounds:
  assumes "hour t < 24" "minute t < 60" "second t < 60"
  shows "0 \<le> time_secs t \<and> time_secs t < 86400"
  using assms by (simp add: time_secs_def)

lemma calculate_delay_Some:
  assumes "calculate_delay today row = Inr (Some d)"
  shows "\<exists>ts ta. robust_time_parser (delay_row.scheduled_arrival row) = Inr (Some ts) \<and>
           robust_time_parser (delay_row.actual_arrival row) = Inr (Some ta) \<and>
           d = (if 43200 < time_secs ts - time_secs ta
                then time_secs ta + 86400 - time_secs ts
                else time_secs ta - time_secs ts)"
proof -
  from assms obtain r1 r2 where r: "robust_time_parser (delay_row.scheduled_arrival row) = Inr r1"
    "robust_time_parser (delay_row.actual_arrival row) = Inr r2"
    unfolding calculate_delay_def py_bind_Inr by blast
  with assms obtain ts ta where s: "r1 = Some ts" "r2 = Some ta"
    by (cases r1; cases r2) (simp_all add: calculate_delay_def py_bind_def)
  with assms r show ?thesis
    by (auto simp: calculate_delay_def py_bind_def combine_def dt_less_def
        total_seconds_diff_def add_days_def Let_def split: if_splits)
qed

lemma calculate_delay_None_iff:
  assumes "robust_time_parser (delay_row.scheduled_arrival row) = Inr r1"
    and "robust_time_parser (delay_row.actual_arrival row) = Inr r2"
    and "1 \<le> today" "today < max_ordinal"
  shows "calculate_delay today row = Inr None \<longleftrightarrow> r1 = None \<or> r2 = None"
  using assms
  by (cases r1; cases r2)
     (simp_all add: calculate_delay_def py_bind_def combine_def dt_less_def total_seconds_diff_def
      add_days_def Let_def)

section \<open>Properties of the Service Calendar Resolver\<close>

lemma int_digits_all_digits:
  assumes "list_all is_digit ds" "ds \<noteq> [] \<or> prev"
  shows "int_digits prev n acc ds = Some (n + length ds, digits_value acc ds)"
  using assms
  by (induction ds arbitrary: prev n acc) (simp_all add: digits_value_def)

lemma strip_digits:
  assumes "list_all is_digit ds"
  shows "strip ds = ds"
proof (cases ds)
  case Nil
  then show ?thesis by (simp add: strip_def)
next
  case (Cons a r)
  with assms have h: "\<not> is_space (hd ds)"
    by (simp add: digit_not_space)
  from Cons assms have "is_digit (last ds)"
    by (metis last_in_set list.distinct(1) list_all_iff)
  moreover from Cons have "hd (rev ds) = last ds"
    by (intro hd_rev)
  ultimately have l: "\<not> is_space (hd (rev ds))"
    by (simp add: digit_not_space)
  from h have "dropWhile is_space ds = ds"
    by (simp add: dropWhile_eq_self_iff)
  moreover from l have "dropWhile is_space (rev ds) = rev ds"
    by (simp add: dropWhile_eq_self_iff)
  ultimately show ?thesis by (simp add: strip_def)
qed

lemma py_int_digits:
  assumes "list_all is_digit ds" "ds \<noteq> []" "length ds \<le> 4300"
  shows "py_int ds = Inr (int (digits_value 0 ds))"
proof -
  from assms obtain a r where ds: "ds = a # r" by (cases ds) auto
  with assms(1) have a: "a \<noteq> CHR ''-''" "a \<noteq> CHR ''+''"
    using digit_not_sign [of a] by simp_all
  have "int_unsigned ds = Some (int (digits_value 0 ds))"
    using int_digits_all_digits [OF assms(1), of False 0 0] assms(2,3)
    by (simp add: int_unsigned_def int_max_str_digits_def)
  then show ?thesis
    unfolding py_int_def strip_digits [OF assms(1)] Let_def
    using a by (simp add: ds)
qed

lemma first_active:
  "(case map f (filter P xs) of [] \<Rightarrow> None | x # _ \<Rightarrow> Some x) = map_option f (find P xs)"
  by (induction xs) simp_all

lemma day_map_weekday:
  assumes "0 \<le> k" "k < 7"
  shows "day_map k =
    Some (\<lambda>e. [monday e, tuesday e, wednesday e, thursday e, friday e, saturday e, sunday e] ! nat k)"
proof -
  from assms consider "k = 0" | "k = 1" | "k = 2" | "k = 3" | "k = 4" | "k = 5" | "k = 6"
    by atomize_elim arith
  then show ?thesis
    by cases (simp_all add: day_map_def fun_eq_iff)
qed

lemma weekday_range: "0 \<le> weekday n \<and> weekday n < 7"
  by (simp add: weekday_def)

lemma digit_char_is_digit: "k < 10 \<Longrightarrow> is_digit (digit_char k)"
  by (simp add: digit_char_digit)

lemma digit_char_val: "k < 10 \<Longrightarrow> digit_val (digit_char k) = k"
  by (simp add: digit_char_digit)

lemma four_digits_props:
  assumes "y < 10000"
  shows "list_all is_digit (four_digits y)" "length (four_digits y) = 4"
    "digits_value 0 (four_digits y) = y"
proof -
  have b: "y div 1000 < 10" "y div 100 mod 10 < 10" "y div 10 mod 10 < 10" "y mod 10 < 10"
    using assms by simp_all
  then show "list_all is_digit (four_digits y)"
    by (simp add: four_digits_def digit_char_is_digit)
  show "length (four_digits y) = 4" by (simp add: four_digits_def)
  have "y mod 10 + 10 * (y div 10) = y" "y div 10 mod 10 + 10 * (y div 10 div 10) = y div 10"
    "y div 100 mod 10 + 10 * (y div 100 div 10) = y div 100"
    by simp_all
  moreover have "y div 10 div 10 = y div 100" "y div 100 div 10 = y div 1000"
    by (simp_all add: div_mult2_eq)
  ultimately
  have "1000 * (y div 1000) + 100 * (y div 100 mod 10) + 10 * (y div 10 mod 10) + y mod 10 = y"
    by linarith
  then show "digits_value 0 (four_digits y) = y"
    using b by (simp add: four_digits_def digits_value_def digit_char_val)
qed

lemma two_digits_props:
  assumes "m < 100"
  shows "list_all is_digit (two_digits m)" "length (two_digits m) = 2"
    "digits_value 0 (two_digits m) = m"
proof -
  have b: "m div 10 < 10" "m mod 10 < 10" using assms by simp_all
  then show "list_all is_digit (two_digits m)"
    by (simp add: two_digits_def digit_char_is_digit)
  show "length (two_digits m) = 2" by (simp add: two_digits_def)
  show "digits_value 0 (two_digits m) = m"
    using b by (simp add: two_digits_def digits_value_def digit_char_val)
qed

lemma digits_value_append:
  "digits_value acc (xs @ ys) = digits_value (digits_value acc xs) ys"
  by (simp add: digits_value_def)

lemma digits_value_acc:
  "digits_value acc ds = acc * 10 ^ length ds + digits_value 0 ds"
proof (induction ds arbitrary: acc)
  case Nil
  then show ?case by (simp add: digits_value_def)
next
  case (Cons c ds)
  have "digits_value acc (c # ds) = digits_value (10 * acc + digit_val c) ds"
    by (simp add: digits_value_def)
  also have "\<dots> = (10 * acc + digit_val c) * 10 ^ length ds + digits_value 0 ds"
    by (rule Cons.IH)
  finally have 1: "digits_value acc (c # ds) =
      (10 * acc + digit_val c) * 10 ^ length ds + digits_value 0 ds" .
  have "digits_value 0 (c # ds) = digits_value (digit_val c) ds"
    by (simp add: digits_value_def)
  also have "\<dots> = digit_val c * 10 ^ length ds + digits_value 0 ds"
    by (rule Cons.IH)
  finally show ?case
    using 1 by (simp add: algebra_simps)
qed

lemma date_string_props:
  assumes "y < 10000" "m < 100" "d < 100"
  shows "slice 0 4 (date_string y m d) = four_digits y"
    "slice 4 6 (date_string y m d) = two_digits m"
    "slice 6 8 (date_string y m d) = two_digits d"
    "list_all is_digit (date_string y m d)" "length (date_string y m d) = 8"
    "digits_value 0 (date_string y m d) = 10000 * y + 100 * m + d"
proof -
  note f = four_digits_props [OF assms(1)]
  note t = two_digits_props [OF assms(2)]
  note t' = two_digits_props [OF assms(3)]
  show "slice 0 4 (date_string y m d) = four_digits y"
    by (simp add: slice_def date_string_def f(2))
  show "slice 4 6 (date_string y m d) = two_digits m"
    by (simp add: slice_def date_string_def f(2) t(2))
  show "slice 6 8 (date_string y m d) = two_digits d"
    by (simp add: slice_def date_string_def f(2) t(2) t'(2))
  show "list_all is_digit (date_string y m d)"
    by (simp add: date_string_def f(1) t(1) t'(1))
  show "length (date_string y m d) = 8"
    by (simp add: date_string_def f(2) t(2) t'(2))
  have "digits_value 0 (date_string y m d) =
      digits_value (digits_value (digits_value 0 (four_digits y)) (two_digits m)) (two_digits d)"
    by (simp add: date_string_def digits_value_append)
  also have "\<dots> = (y * 10 ^ 2 + m) * 10 ^ 2 + d"
    using digits_value_acc [of y "two_digits m"]
      digits_value_acc [of "y * 10 ^ 2 + m" "two_digits d"]
    by (simp add: f(3) t(2,3) t'(2,3))
  finally show "digits_value 0 (date_string y m d) = 10000 * y + 100 * m + d"
    by simp
qed

lemma get_service_id_for_date_valid:
  assumes "valid_date y m d"
  shows "get_service_id_for_date (date_string y m d) calendar_df =
           Inr (map_option calendar_entry.service_id (find (active_on y m d) calendar_df))"
proof -
  from assms have b: "y < 10000" "m < 100" "d < 100"
    by (auto simp: valid_date_def days_in_month_def split: if_splits)
  note ds = date_string_props [OF b]
  note f = four_digits_props [OF b(1)]
  note t = two_digits_props [OF b(2)]
  note t' = two_digits_props [OF b(3)]
  have ne: "four_digits y \<noteq> []" "two_digits m \<noteq> []" "two_digits d \<noteq> []"
    "date_string y m d \<noteq> []"
    using f(2) t(2) t'(2) ds(5) by auto
  have i1: "py_int (slice 0 4 (date_string y m d)) = Inr (int y)"
    unfolding ds(1) using py_int_digits [OF f(1) ne(1)] f(2,3) by simp
  have i2: "py_int (slice 4 6 (date_string y m d)) = Inr (int m)"
    unfolding ds(2) using py_int_digits [OF t(1) ne(2)] t(2,3) by simp
  have i3: "py_int (slice 6 8 (date_string y m d)) = Inr (int d)"
    unfolding ds(3) using py_int_digits [OF t'(1) ne(3)] t'(2,3) by simp
  have i4: "py_int (date_string y m d) = Inr (int (10000 * y + 100 * m + d))"
    using py_int_digits [OF ds(4) ne(4)] ds(5,6) by simp
  have dt: "py_date (int y) (int m) (int d) = Inr (ymd2ord (int y) (int m) (int d))"
    using assms by (simp add: py_date_def valid_date_def)
  let ?w = "weekday (ymd2ord (int y) (int m) (int d))"
  have dm: "day_map ?w =
      Some (\<lambda>e. [monday e, tuesday e, wednesday e, thursday e, friday e, saturday e, sunday e] ! nat ?w)"
    using weekday_range [of "ymd2ord (int y) (int m) (int d)"] by (intro day_map_weekday) simp_all
  have flt: "(\<lambda>e. calendar_entry.start_date e \<le> int (10000 * y + 100 * m + d) \<and>
                  end_date e \<ge> int (10000 * y + 100 * m + d) \<and>
                  [monday e, tuesday e, wednesday e, thursday e, friday e, saturday e, sunday e] ! nat ?w = 1)
             = active_on y m d"
    by (auto simp: active_on_def weekday_flag_def fun_eq_iff)
  show ?thesis
    unfolding get_service_id_for_date_def i1 i2 i3 i4
    by (simp add: py_bind_def dt dm Let_def flt first_active del: of_nat_add of_nat_mult)
qed

section \<open>Properties of the steps of main\<close>

lemma merge_inner_append:
  "merge_inner lk rk (xs @ ys) right = merge_inner lk rk xs right @ merge_inner lk rk ys right"
  by (simp add: merge_inner_def)

lemma merge_inner_single:
  "merge_inner lk rk [l] right = map (Pair l) (filter (\<lambda>r. rk r = lk l) right)"
  by (simp add: merge_inner_def)

lemma merge_inner_Cons:
  "merge_inner lk rk (l # ls) right =
     map (Pair l) (filter (\<lambda>r. rk r = lk l) right) @ merge_inner lk rk ls right"
  by (simp add: merge_inner_def)

lemma set_merge_inner:
  "set (merge_inner lk rk left right) = {(l, r). l \<in> set left \<and> r \<in> set right \<and> rk r = lk l}"
  by (auto simp: merge_inner_def)

lemma matched_trips_df_split:
  "matched_trips_df (before @ r # rest) trips_df =
     matched_trips_df before trips_df @ map (Pair r) (matching_trips r trips_df) @
     matched_trips_df rest trips_df"
  by (simp add: matched_trips_df_def matching_trips_def merge_inner_append merge_inner_Cons)

lemma matched_trips_df_Nil: "matched_trips_df [] trips_df = []"
  by (simp add: matched_trips_df_def merge_inner_def)

lemma matched_trips_df_single:
  "matched_trips_df [r] trips_df = map (Pair r) (matching_trips r trips_df)"
  by (simp add: matched_trips_df_def matching_trips_def merge_inner_single)

lemma matched_trips_df_member:
  assumes "(r, t) \<in> set (matched_trips_df realtime_df trips_df)"
  shows "t \<in> set (matching_trips r trips_df)"
  using assms by (auto simp: matched_trips_df_def matching_trips_def set_merge_inner)

lemma merged_df_member:
  assumes "row \<in> set (merged_df matched stop_times_df)"
  shows "fst row \<in> set matched"
  using assms by (auto simp: merged_df_def set_merge_inner)

lemma unmatched_not_merged:
  assumes "matching_trips r trips_df = []"
    and "row \<in> set (merged_df (matched_trips_df realtime_df trips_df) stop_times_df)"
  shows "fst (fst row) \<noteq> r"
proof
  assume "fst (fst row) = r"
  moreover from merged_df_member [OF assms(2)]
  have "(fst (fst row), snd (fst row)) \<in> set (matched_trips_df realtime_df trips_df)" by simp
  ultimately have "snd (fst row) \<in> set (matching_trips r trips_df)"
    using matched_trips_df_member by blast
  with assms(1) show False by simp
qed

lemma apply_rows_Inr:
  "apply_rows f xs = Inr ys \<longleftrightarrow> list_all2 (\<lambda>x y. f x = Inr y) xs ys"
proof (induction xs arbitrary: ys)
  case Nil
  then show ?case by auto
next
  case (Cons x xs)
  show ?case
    by (cases ys) (auto simp: py_bind_Inr Cons.IH)
qed

lemma calculate_delay_final_columns:
  "calculate_delay today (final_columns row d) = calculate_delay today (delay_cells row)"
  by (simp add: calculate_delay_def final_columns_def delay_cells_def Let_def)

lemma delay_seconds_final_columns: "delay_seconds (final_columns row d) = d"
  by (simp add: final_columns_def Let_def)

lemma final_df_Inr:
  assumes "final_df today merged = Inr out"
  shows "\<exists>df. list_all2 (\<lambda>row y. \<exists>d. calculate_delay today (delay_cells row) = Inr d \<and>
                                   y = final_columns row d) merged df \<and>
              out = filter abs_below_7200 (dropna_delay df)"
proof -
  from assms obtain df where
    a: "apply_rows (\<lambda>row. py_bind (calculate_delay today (delay_cells row))
                            (\<lambda>d. Inr (final_columns row d))) merged = Inr df" and
    o: "out = filter abs_below_7200 (dropna_delay df)"
    unfolding final_df_def py_bind_Inr by auto
  from a have "list_all2 (\<lambda>row y. py_bind (calculate_delay today (delay_cells row))
                            (\<lambda>d. Inr (final_columns row d)) = Inr y) merged df"
    by (simp add: apply_rows_Inr)
  then have "list_all2 (\<lambda>row y. \<exists>d. calculate_delay today (delay_cells row) = Inr d \<and>
                                   y = final_columns row d) merged df"
    by (rule list_all2_mono) (auto simp: py_bind_Inr)
  with o show ?thesis by blast
qed

lemma final_df_rows:
  assumes "final_df today merged = Inr out" "r \<in> set out"
  shows "\<exists>d. delay_seconds r = Some d \<and> \<bar>d\<bar> < 7200 \<and> calculate_delay today r = Inr (Some d)"
proof -
  from final_df_Inr [OF assms(1)] obtain df where
    l: "list_all2 (\<lambda>row y. \<exists>d. calculate_delay today (delay_cells row) = Inr d \<and>
                                   y = final_columns row d) merged df" and
    o: "out = filter abs_below_7200 (dropna_delay df)"
    by blast
  from assms(2) o have r: "r \<in> set df" "abs_below_7200 r"
    by (simp_all add: dropna_delay_def)
  from r(2) obtain d where d: "delay_seconds r = Some d" "\<bar>d\<bar> < 7200"
    by (auto simp: abs_below_7200_def split: option.splits)
  from r(1) obtain i where i: "i < length df" "df ! i = r"
    by (auto simp: in_set_conv_nth)
  from list_all2_nthD2 [OF l i(1)] i(2) obtain d' where
    "calculate_delay today (delay_cells (merged ! i)) = Inr d'" "r = final_columns (merged ! i) d'"
    by auto
  with d have "calculate_delay today r = Inr (Some d)"
    by (simp add: calculate_delay_final_columns delay_seconds_final_columns)
  with d show ?thesis by blast
qed

lemma main_assemble_rows:
  assumes "main_assemble today realtime_df trips_df stop_times_df = Inr (Some out)" "r \<in> set out"
  shows "\<exists>d. delay_seconds r = Some d \<and> \<bar>d\<bar> < 7200 \<and> calculate_delay today r = Inr (Some d)"
proof -
  from assms(1) have
    "final_df today (merged_df (matched_trips_df realtime_df trips_df) stop_times_df) = Inr out"
    by (auto simp: main_assemble_def Let_def py_bind_Inr split: if_splits)
  from final_df_rows [OF this assms(2)] show ?thesis .
qed

lemmas example_defs =
  example_trip_a_def example_trip_b_def example_trip_c_def example_observation_def
  example_stop_time_def example_realtime_df_def example_stop_times_df_def

lemma example_realtime_key:
  "realtime_key (example_observation stop arrival) = (''1'', ''1'', ''Sunday'', ''000600'')"
  by (simp add: realtime_key_def example_observation_def realtime_start_time_str_def)

lemma example_static_keys:
  "static_key example_trip_a = (''1'', ''1'', ''Sunday'', ''000600'')"
  "static_key example_trip_b = (''1'', ''1'', ''Sunday'', ''000600'')"
  "static_key example_trip_c = (''1'', ''1'', ''Sunday'', ''001200'')"
  by (simp_all add: static_key_def example_defs static_start_time_str_def split_once_def)

lemma example_matching:
  "matching_trips (example_observation stop arrival) [example_trip_a, example_trip_b, example_trip_c] =
     [example_trip_a, example_trip_b]"
  "matching_trips (example_observation stop arrival) [example_trip_a] = [example_trip_a]"
  "matching_trips (example_observation stop arrival) [example_trip_c] = []"
  by (simp_all add: matching_trips_def example_realtime_key example_static_keys)

lemma example_trips_differ: "example_trip_a \<noteq> example_trip_b"
  by (simp add: example_defs)

lemma example_matched:
  "matched_trips_df example_realtime_df [example_trip_a] =
     map (\<lambda>r. (r, example_trip_a)) example_realtime_df"
  by (simp add: matched_trips_df_def merge_inner_def example_realtime_df_def
      example_realtime_key example_static_keys)

lemma example_merged:
  "merged_df (map (\<lambda>r. (r, example_trip_a)) example_realtime_df) example_stop_times_df =
     [((example_observation ''101S'' (PyStr ''00:00:10''), example_trip_a),
       example_stop_time ''101S'' (PyStr ''23:59:50'')),
      ((example_observation ''103S'' (PyStr ''02:31:50''), example_trip_a),
       example_stop_time ''103S'' (PyStr ''24:01:50'')),
      ((example_observation ''104S'' PyNone, example_trip_a),
       example_stop_time ''104S'' (PyStr ''24:03:00''))]"
  by (simp add: merged_df_def merge_inner_def example_defs)

lemma example_delays:
  "calculate_delay 739000
     \<lparr>delay_row.scheduled_arrival = PyStr ''23:59:50'', delay_row.actual_arrival = PyStr ''00:00:10''\<rparr> =
     Inr (Some 20)"
  "calculate_delay 739000
     \<lparr>delay_row.scheduled_arrival = PyStr ''24:01:50'', delay_row.actual_arrival = PyStr ''02:31:50''\<rparr> =
     Inr (Some 9000)"
  "calculate_delay 739000
     \<lparr>delay_row.scheduled_arrival = PyStr ''24:03:00'', delay_row.actual_arrival = PyNone\<rparr> =
     Inr None"
  by (simp_all add: calculate_delay_def combine_def dt_less_def total_seconds_diff_def
      add_days_def time_secs_def parser_eval)

lemma example_final:
  "main_assemble 739000 example_realtime_df [example_trip_a] example_stop_times_df =
     Inr (Some [final_columns
       ((example_observation ''101S'' (PyStr ''00:00:10''), example_trip_a),
        example_stop_time ''101S'' (PyStr ''23:59:50'')) (Some 20)])"
  unfolding main_assemble_def example_matched example_merged Let_def
  by (simp add: final_df_def py_bind_def delay_cells_def example_observation_def
      example_stop_time_def example_delays dropna_delay_def abs_below_7200_def
      delay_seconds_final_columns example_realtime_df_def)

section \<open>Properties of the Observation Store\<close>

lemma realtime_insert:
  "realtime (insert_historical row (insert_realtime row db)) = realtime db @ [row]"
  "historical (insert_historical row (insert_realtime row db)) = insert_or_ignore row (historical db)"
  by (simp_all add: insert_historical_def insert_realtime_def)

lemma store_stop_time_updates_realtime:
  assumes "store_stop_time_updates env tr us db = Inr db'"
  shows "map Inr (realtime db') = map Inr (realtime db) @ map (data_tuple env tr) us"
  using assms
proof (induction us arbitrary: db)
  case Nil
  then show ?case by simp
next
  case (Cons u us)
  from Cons.prems obtain row where
    row: "data_tuple env tr u = Inr row" and
    rest: "store_stop_time_updates env tr us (insert_historical row (insert_realtime row db)) = Inr db'"
    by (auto simp: py_bind_Inr)
  from Cons.IH [OF rest] row show ?case
    by (simp add: realtime_insert)
qed

lemma store_entities_realtime:
  assumes "store_entities env es db = Inr db'"
  shows "map Inr (realtime db') = map Inr (realtime db) @ concat (map (entity_observations env) es)"
  using assms
proof (induction es arbitrary: db)
  case Nil
  then show ?case by simp
next
  case (Cons entity es)
  show ?case
  proof (cases "trip_update entity")
    case None
    with Cons show ?thesis by (simp add: entity_observations_def)
  next
    case (Some tu)
    with Cons.prems obtain db1 where
      1: "store_stop_time_updates env (trip tu) (stop_time_updates tu) db = Inr db1" and
      2: "store_entities env es db1 = Inr db'"
      by (auto simp: py_bind_Inr)
    from Cons.IH [OF 2] store_stop_time_updates_realtime [OF 1] Some show ?thesis
      by (simp add: entity_observations_def)
  qed
qed

lemma store_responses_step:
  "store_responses env (response # rs) db =
     py_bind (store_entities env (response_feed env response) db) (store_responses env rs)"
  by (simp add: response_feed_def py_bind_def split: option.splits)

lemma store_responses_realtime:
  assumes "store_responses env rs db = Inr db'"
  shows "map Inr (realtime db') =
           map Inr (realtime db) @
           concat (map (entity_observations env) (concat (map (response_feed env) rs)))"
  using assms
proof (induction rs arbitrary: db)
  case Nil
  then show ?case by simp
next
  case (Cons response rs)
  from Cons.prems obtain db1 where
    1: "store_entities env (response_feed env response) db = Inr db1" and
    2: "store_responses env rs db1 = Inr db'"
    unfolding store_responses_step by (auto simp: py_bind_Inr)
  from Cons.IH [OF 2] store_entities_realtime [OF 1] show ?case
    by simp
qed

lemma process_and_store_data_realtime:
  assumes "process_and_store_data env responses db = Inr db'"
  shows "map Inr (realtime db') = decoded_observations env responses"
  using store_responses_realtime [OF assms [unfolded process_and_store_data_def]]
  by (simp add: decoded_observations_def)















lemma store_stop_time_updates_total:
  assumes "\<forall>u \<in> set us. \<exists>row. data_tuple env tr u = Inr row"
  shows "\<exists>db'. store_stop_time_updates env tr us db = Inr db'"
  using assms
proof (induction us arbitrary: db)
  case Nil
  then show ?case by simp
next
  case (Cons u us)
  then obtain row where row: "data_tuple env tr u = Inr row" by auto
  from Cons.IH [of "insert_historical row (insert_realtime row db)"] Cons.prems row
  show ?case by (simp add: py_bind_def)
qed

lemma store_entities_total:
  assumes "\<forall>x \<in> set (concat (map (entity_observations env) es)). \<exists>row. x = Inr row"
  shows "\<exists>db'. store_entities env es db = Inr db'"
  using assms
proof (induction es arbitrary: db)
  case Nil
  then show ?case by simp
next
  case (Cons entity es)
  from Cons.prems have rest: "\<forall>x \<in> set (concat (map (entity_observations env) es)). \<exists>row. x = Inr row"
    by simp
  show ?case
  proof (cases "trip_update entity")
    case None
    with Cons.IH [OF rest] show ?thesis by simp
  next
    case (Some tu)
    with Cons.prems have "\<forall>u \<in> set (stop_time_updates tu). \<exists>row. data_tuple env (trip tu) u = Inr row"
      by (auto simp: entity_observations_def)
    from store_stop_time_updates_total [OF this] obtain db1 where
      "store_stop_time_updates env (trip tu) (stop_time_updates tu) db = Inr db1" by blast
    with Cons.IH [OF rest, of db1] Some show ?thesis by (simp add: py_bind_def)
  qed
qed

lemma store_responses_total:
  assumes "\<forall>x \<in> set (decoded_observations env rs). \<exists>row. x = Inr row"
  shows "\<exists>db'. store_responses env rs db = Inr db'"
  using assms
proof (induction rs arbitrary: db)
  case Nil
  then show ?case by simp
next
  case (Cons response rs)
  from Cons.prems have
    1: "\<forall>x \<in> set (concat (map (entity_observations env) (response_feed env response))). \<exists>row. x = Inr row"
    and 2: "\<forall>x \<in> set (decoded_observations env rs). \<exists>row. x = Inr row"
    by (simp_all add: decoded_observations_def)
  from store_entities_total [OF 1] obtain db1 where
    "store_entities env (response_feed env response) db = Inr db1" by blast
  with Cons.IH [OF 2, of db1] show ?case
    unfolding store_responses_step by (simp add: py_bind_def)
qed

lemma process_and_store_data_total:
  assumes "\<forall>x \<in> set (decoded_observations env responses). \<exists>row. x = Inr row"
  shows "\<exists>db'. process_and_store_data env responses db = Inr db'"
  unfolding process_and_store_data_def by (rule store_responses_total [OF assms])

lemmas store_eval =
  ingestion_cycles_def ingestion_cycle_def init_databases_def process_and_store_data_def
  example_env_def example_feed_def example_row_def data_tuple_def py_bind_def
  track_direction_of_def endswith_def stop_name_of_def slice_def insert_historical_def
  insert_realtime_def insert_or_ignore_def natural_key_def unique_keys_def

section \<open>The claims about the Time Normalizer and the Delay Calculator\<close>

text \<open>
  Claim C1, as the code has it. The parser returns a time of day: \<^verbatim>\<open>"07:05:09"\<close> gives
  07:05:09, and \<^verbatim>\<open>"25:10:00"\<close> gives 01:10:00, the hour wrapped modulo 24 by
  \<^verbatim>\<open>.time()\<close>; for every clock string of three two-digit fields with minute and
  second below 60 the result is the hour modulo 24 with the minute and the second.
  Fields without a leading zero are accepted, so \<^verbatim>\<open>"7:5:9"\<close> gives 07:05:09. A string
  with fewer than three colon-separated fields, or with one of the first three that
  \<^verbatim>\<open>int()\<close> refuses, gives \<^verbatim>\<open>None\<close>, and so does a value that is not a string.
\<close>

theorem robust_time_parser_time_of_day:
  "robust_time_parser (PyStr ''07:05:09'') = Inr (Some \<lparr>hour = 7, minute = 5, second = 9\<rparr>) \<and>
   robust_time_parser (PyStr ''25:10:00'') = Inr (Some \<lparr>hour = 1, minute = 10, second = 0\<rparr>) \<and>
   robust_time_parser (PyStr ''7:5:9'') = Inr (Some \<lparr>hour = 7, minute = 5, second = 9\<rparr>) \<and>
   (\<forall>h m s. h < 100 \<and> m < 60 \<and> s < 60 \<longrightarrow>
      robust_time_parser (PyStr (clock_string h m s)) =
        Inr (Some \<lparr>hour = h mod 24, minute = m, second = s\<rparr>)) \<and>
   (\<forall>s. \<not> three_int_fields s \<longrightarrow> robust_time_parser (PyStr s) = Inr None) \<and>
   robust_time_parser PyNone = Inr None \<and> robust_time_parser PyNaN = Inr None \<and>
   (\<forall>i. robust_time_parser (PyInt i) = Inr None)"
proof -
  have "\<forall>s. \<not> three_int_fields s \<longrightarrow> robust_time_parser (PyStr s) = Inr None"
    by (simp add: robust_time_parser_None_iff)
  moreover have "robust_time_parser PyNone = Inr None" "robust_time_parser PyNaN = Inr None"
    "\<forall>i. robust_time_parser (PyInt i) = Inr None"
    by (simp_all add: robust_time_parser_def)
  ultimately show ?thesis
    using parse_070509 parse_251000 parse_759 robust_time_parser_clock by blast
qed

theorem robust_time_parser_time_of_day_witness:
  "(49::nat) < 100 \<and> (30::nat) < 60 \<and> (15::nat) < 60 \<and>
   robust_time_parser (PyStr ''49:30:15'') = Inr (Some \<lparr>hour = 1, minute = 30, second = 15\<rparr>) \<and>
   \<not> three_int_fields ''12:xx:00'' \<and> robust_time_parser (PyStr ''12:xx:00'') = Inr None"
proof -
  have c: "clock_string 49 30 15 = ''49:30:15''"
    by (simp add: clock_string_def two_digits_def digit_char_def)
  have n: "\<not> three_int_fields ''12:xx:00''"
    by (simp add: three_int_fields_def parser_eval)
  from robust_time_parser_time_of_day
  have "robust_time_parser (PyStr (clock_string 49 30 15)) =
          Inr (Some \<lparr>hour = 49 mod 24, minute = 30, second = 15\<rparr>)"
    and "robust_time_parser (PyStr ''12:xx:00'') = Inr None"
    using n by simp_all
  with c n show ?thesis by simp
qed

text \<open>
  Claim C1 as the specification states it fails: \<^verbatim>\<open>"25:10:00"\<close> is wrapped to 1h10m0s,
  4200 seconds from midnight and not 25h10m0s, and \<^verbatim>\<open>"7:5:9"\<close> is parsed, not refused.
\<close>

theorem robust_time_parser_unwrapped_counterexample:
  "robust_time_parser (PyStr ''25:10:00'') = Inr (Some \<lparr>hour = 1, minute = 10, second = 0\<rparr>) \<and>
   time_secs \<lparr>hour = 1, minute = 10, second = 0\<rparr> = 4200 \<and>
   time_secs \<lparr>hour = 1, minute = 10, second = 0\<rparr> \<noteq> 25 * 3600 + 10 * 60 + 0 \<and>
   robust_time_parser (PyStr ''7:5:9'') \<noteq> Inr None"
  by (simp add: parse_251000 parse_759 time_secs_def)

text \<open>
  Claim C3 says that no exception leaves the parser. The handlers catch
  \<^verbatim>\<open>ValueError\<close> and \<^verbatim>\<open>IndexError\<close> only: a negative offset from midnight, or one beyond
  the year 9999, raises \<^verbatim>\<open>OverflowError\<close> in the addition to \<^verbatim>\<open>datetime.min\<close> (or in
  \<^verbatim>\<open>timedelta\<close>), and that exception leaves \<^verbatim>\<open>robust_time_parser\<close>.
\<close>

theorem robust_time_parser_overflow_escapes:
  "robust_time_parser (PyStr ''-1:00:00'') = Inl OverflowError \<and>
   robust_time_parser (PyStr ''87649416:00:00'') = Inl OverflowError \<and>
   robust_time_parser (PyStr ''99999999999999:00:00'') = Inl OverflowError"
  by (simp add: parser_eval)

text \<open>
  Claim C4. When both times parse and the observed time of day is more than 12 hours
  (43200 seconds) before the scheduled one, 24 hours are added to the observed time
  before the difference is taken; otherwise the difference is observed minus
  scheduled, positive when late. Scheduled \<^verbatim>\<open>"23:58:00"\<close> and observed \<^verbatim>\<open>"00:02:00"\<close>
  give 240 seconds, scheduled \<^verbatim>\<open>"08:00:00"\<close> and observed \<^verbatim>\<open>"08:05:30"\<close> give 330.
  The date of the run is any date before 9999-12-31.
\<close>

theorem calculate_delay_overnight:
  assumes "1 \<le> today" "today < max_ordinal"
  shows "(\<forall>row ts ta. robust_time_parser (delay_row.scheduled_arrival row) = Inr (Some ts) \<and>
            robust_time_parser (delay_row.actual_arrival row) = Inr (Some ta) \<longrightarrow>
            calculate_delay today (row :: delay_row) =
              Inr (Some (if 43200 < time_secs ts - time_secs ta
                         then (time_secs ta + 86400) - time_secs ts
                         else time_secs ta - time_secs ts))) \<and>
         calculate_delay today
           \<lparr>delay_row.scheduled_arrival = PyStr ''23:58:00'', delay_row.actual_arrival = PyStr ''00:02:00''\<rparr> =
             Inr (Some 240) \<and>
         calculate_delay today
           \<lparr>delay_row.scheduled_arrival = PyStr ''08:00:00'', delay_row.actual_arrival = PyStr ''08:05:30''\<rparr> =
             Inr (Some 330)"
proof -
  have a: "robust_time_parser (PyStr ''23:58:00'') = Inr (Some \<lparr>hour = 23, minute = 58, second = 0\<rparr>)"
    "robust_time_parser (PyStr ''00:02:00'') = Inr (Some \<lparr>hour = 0, minute = 2, second = 0\<rparr>)"
    "robust_time_parser (PyStr ''08:00:00'') = Inr (Some \<lparr>hour = 8, minute = 0, second = 0\<rparr>)"
    "robust_time_parser (PyStr ''08:05:30'') = Inr (Some \<lparr>hour = 8, minute = 5, second = 30\<rparr>)"
    by (simp_all add: parser_eval)
  have "calculate_delay today
      \<lparr>delay_row.scheduled_arrival = PyStr ''23:58:00'', delay_row.actual_arrival = PyStr ''00:02:00''\<rparr> = Inr (Some 240)"
    using calculate_delay_parsed [OF _ _ assms,
        of "\<lparr>delay_row.scheduled_arrival = PyStr ''23:58:00'', delay_row.actual_arrival = PyStr ''00:02:00''\<rparr>"] a
    by (simp add: time_secs_def)
  moreover have "calculate_delay today
      \<lparr>delay_row.scheduled_arrival = PyStr ''08:00:00'', delay_row.actual_arrival = PyStr ''08:05:30''\<rparr> = Inr (Some 330)"
    using calculate_delay_parsed [OF _ _ assms,
        of "\<lparr>delay_row.scheduled_arrival = PyStr ''08:00:00'', delay_row.actual_arrival = PyStr ''08:05:30''\<rparr>"] a
    by (simp add: time_secs_def)
  moreover have "calculate_delay today row =
      Inr (Some (if 43200 < time_secs ts - time_secs ta
                 then (time_secs ta + 86400) - time_secs ts
                 else time_secs ta - time_secs ts))"
    if "robust_time_parser (delay_row.scheduled_arrival row) = Inr (Some ts)"
      and "robust_time_parser (delay_row.actual_arrival row) = Inr (Some ta)"
    for row :: delay_row and ts ta
    using calculate_delay_parsed [OF that assms] .
  ultimately show ?thesis by blast
qed

theorem calculate_delay_overnight_witness:
  "(1::int) \<le> 739000 \<and> 739000 < max_ordinal \<and>
   robust_time_parser (PyStr ''25:10:00'') = Inr (Some \<lparr>hour = 1, minute = 10, second = 0\<rparr>) \<and>
   robust_time_parser (PyStr ''01:12:00'') = Inr (Some \<lparr>hour = 1, minute = 12, second = 0\<rparr>) \<and>
   calculate_delay 739000
     \<lparr>delay_row.scheduled_arrival = PyStr ''25:10:00'', delay_row.actual_arrival = PyStr ''01:12:00''\<rparr> = Inr (Some 120) \<and>
   calculate_delay 739000
     \<lparr>delay_row.scheduled_arrival = PyStr ''23:58:00'', delay_row.actual_arrival = PyStr ''00:02:00''\<rparr> = Inr (Some 240)"
proof -
  have t: "(1::int) \<le> 739000" "739000 < max_ordinal"
    by (simp_all add: max_ordinal_def)
  have p: "robust_time_parser (PyStr ''01:12:00'') = Inr (Some \<lparr>hour = 1, minute = 12, second = 0\<rparr>)"
    by (simp add: parser_eval)
  from calculate_delay_overnight [OF t] parse_251000 p
  have "calculate_delay 739000
      \<lparr>delay_row.scheduled_arrival = PyStr ''25:10:00'', delay_row.actual_arrival = PyStr ''01:12:00''\<rparr> = Inr (Some 120)"
    and "calculate_delay 739000
      \<lparr>delay_row.scheduled_arrival = PyStr ''23:58:00'', delay_row.actual_arrival = PyStr ''00:02:00''\<rparr> = Inr (Some 240)"
    by (simp_all add: time_secs_def)
  with t p parse_251000 show ?thesis by simp
qed

text \<open>
  Claim C8 says that the calculator returns \<^verbatim>\<open>None\<close> exactly when one of the two strings
  fails to parse. The observed string \<^verbatim>\<open>"abc"\<close> fails to parse, but with the scheduled
  string \<^verbatim>\<open>"-1:00:00"\<close> the calculator returns nothing: the \<^verbatim>\<open>OverflowError\<close> of the
  parser passes through it. (Where the parser returns for both strings, the
  equivalence holds: lemma \<open>calculate_delay_None_iff\<close>.)
\<close>

theorem calculate_delay_overflow_escapes:
  "robust_time_parser (PyStr ''abc'') = Inr None \<and>
   calculate_delay today
     \<lparr>delay_row.scheduled_arrival = PyStr ''-1:00:00'', delay_row.actual_arrival = PyStr ''abc''\<rparr> = Inl OverflowError"
proof -
  have "robust_time_parser (PyStr ''abc'') = Inr None"
    by (simp add: parser_eval)
  then show ?thesis
    by (simp add: calculate_delay_def py_bind_def parse_minus_one)
qed

text \<open>
  Claim C10. Whenever the calculator returns a number of seconds, it is at least
  -43200 and below 86400: both times are times of one day, and a difference below
  -43200 has 86400 added.
\<close>

theorem calculate_delay_range:
  assumes "calculate_delay today row = Inr (Some d)"
  shows "- 43200 \<le> d \<and> d < 86400"
proof -
  from calculate_delay_Some [OF assms] obtain ts ta where
    p: "robust_time_parser (delay_row.scheduled_arrival row) = Inr (Some ts)"
       "robust_time_parser (delay_row.actual_arrival row) = Inr (Some ta)" and
    d: "d = (if 43200 < time_secs ts - time_secs ta
             then time_secs ta + 86400 - time_secs ts
             else time_secs ta - time_secs ts)"
    by blast
  from robust_time_parser_valid [OF p(1)] have "0 \<le> time_secs ts \<and> time_secs ts < 86400"
    by (intro time_secs_bounds) simp_all
  moreover from robust_time_parser_valid [OF p(2)] have "0 \<le> time_secs ta \<and> time_secs ta < 86400"
    by (intro time_secs_bounds) simp_all
  ultimately show ?thesis
    unfolding d by (simp split: if_splits)
qed

theorem calculate_delay_range_witness:
  "calculate_delay 739000
     \<lparr>delay_row.scheduled_arrival = PyStr ''12:00:00'', delay_row.actual_arrival = PyStr ''00:00:00''\<rparr> =
       Inr (Some (- 43200)) \<and> - 43200 \<le> (- 43200 :: int) \<and> (- 43200 :: int) < 86400"
proof -
  have "calculate_delay 739000
     \<lparr>delay_row.scheduled_arrival = PyStr ''12:00:00'', delay_row.actual_arrival = PyStr ''00:00:00''\<rparr> =
       Inr (Some (- 43200))"
    by (simp add: calculate_delay_def combine_def dt_less_def total_seconds_diff_def
        add_days_def time_secs_def parser_eval)
  from this calculate_delay_range [OF this] show ?thesis by simp
qed

section \<open>The claim about the Service Calendar Resolver\<close>

text \<open>
  Claim C5. For every calendar date, given as its string \<^verbatim>\<open>YYYYMMDD\<close>, the resolver
  returns the service id of the first entry, in the order of the table, whose window
  from \<^verbatim>\<open>start_date\<close> to \<^verbatim>\<open>end_date\<close> (both included) contains the date and whose
  column for the weekday of the date holds 1; it returns \<^verbatim>\<open>None\<close> when there is no
  such entry. The result is a function of the date and the table.
\<close>

theorem get_service_id_for_date_first_active:
  assumes "valid_date y m d"
  shows "get_service_id_for_date (date_string y m d) calendar_df =
           Inr (map_option calendar_entry.service_id (find (active_on y m d) calendar_df)) \<and>
         ((\<forall>e \<in> set calendar_df. \<not> active_on y m d e) \<longrightarrow>
            get_service_id_for_date (date_string y m d) calendar_df = Inr None) \<and>
         (\<forall>i. i < length calendar_df \<and> active_on y m d (calendar_df ! i) \<and>
               (\<forall>j < i. \<not> active_on y m d (calendar_df ! j)) \<longrightarrow>
            get_service_id_for_date (date_string y m d) calendar_df =
              Inr (Some (calendar_entry.service_id (calendar_df ! i))))"
proof -
  note r = get_service_id_for_date_valid [OF assms, of calendar_df]
  have "find (active_on y m d) calendar_df = None" if "\<forall>e \<in> set calendar_df. \<not> active_on y m d e"
    using that by (simp add: find_None_iff)
  moreover have "find (active_on y m d) calendar_df = Some (calendar_df ! i)"
    if "i < length calendar_df" "active_on y m d (calendar_df ! i)"
      "\<forall>j < i. \<not> active_on y m d (calendar_df ! j)" for i
    using that by (auto simp: find_Some_iff)
  ultimately show ?thesis
    using r by auto
qed

theorem get_service_id_for_date_first_active_witness:
  "valid_date 2024 1 15 \<and> date_string 2024 1 15 = ''20240115'' \<and>
   get_service_id_for_date ''20240115''
     [\<lparr>calendar_entry.service_id = ''Saturday'', monday = 0, tuesday = 0, wednesday = 0, thursday = 0,
       friday = 0, saturday = 1, sunday = 0, calendar_entry.start_date = 20240101, end_date = 20241231\<rparr>,
      \<lparr>calendar_entry.service_id = ''Weekday'', monday = 1, tuesday = 1, wednesday = 1, thursday = 1,
       friday = 1, saturday = 0, sunday = 0, calendar_entry.start_date = 20240101, end_date = 20240115\<rparr>,
      \<lparr>calendar_entry.service_id = ''Holiday'', monday = 1, tuesday = 0, wednesday = 0, thursday = 0,
       friday = 0, saturday = 0, sunday = 0, calendar_entry.start_date = 20240115, end_date = 20240115\<rparr>] =
     Inr (Some ''Weekday'') \<and>
   get_service_id_for_date ''20240115''
     [\<lparr>calendar_entry.service_id = ''Saturday'', monday = 0, tuesday = 0, wednesday = 0, thursday = 0,
       friday = 0, saturday = 1, sunday = 0, calendar_entry.start_date = 20240101, end_date = 20241231\<rparr>] =
     Inr None"
proof -
  have v: "valid_date 2024 1 15"
    by (simp add: valid_date_def days_in_month_def)
  have s: "date_string 2024 1 15 = ''20240115''"
    by (simp add: date_string_def four_digits_def two_digits_def digit_char_def)
  have w: "weekday (ymd2ord 2024 1 15) = 0"
    by (simp add: weekday_def ymd2ord_def days_before_year_def days_before_month_def)
  from get_service_id_for_date_first_active [OF v] show ?thesis
    unfolding s using v by (simp add: active_on_def weekday_flag_def w)
qed

section \<open>The claims about the Trip Matcher and the Dataset Assembler\<close>

text \<open>
  Claim C2, as the code has it. The matcher is an inner join on the key (route,
  direction, service, start-time token): the rows that an observation contributes to
  \<^verbatim>\<open>matched_trips_df\<close> are its pairs with the static trips that have its key, in the
  order of the static table. With no such static trip the observation contributes
  no row, and no row of the merged frame comes from it; with exactly one it
  contributes one row, with that static trip id; with several it contributes one row
  for each of them.
\<close>

theorem matched_trips_df_inner_join:
  "matched_trips_df (before @ r # rest) trips_df =
     matched_trips_df before trips_df @ map (Pair r) (matching_trips r trips_df) @
     matched_trips_df rest trips_df \<and>
   (matching_trips r trips_df = [] \<longrightarrow>
      matched_trips_df [r] trips_df = [] \<and>
      (\<forall>row \<in> set (merged_df (matched_trips_df realtime_df trips_df) stop_times_df).
         fst (fst row) \<noteq> r)) \<and>
   (\<forall>t. matching_trips r trips_df = [t] \<longrightarrow> matched_trips_df [r] trips_df = [(r, t)]) \<and>
   length (matched_trips_df [r] trips_df) = length (matching_trips r trips_df)"
  using unmatched_not_merged [of r trips_df _ realtime_df stop_times_df]
  by (simp add: matched_trips_df_split matched_trips_df_single)

theorem matched_trips_df_inner_join_witness:
  "matching_trips (example_observation ''101S'' PyNone) [example_trip_c] = [] \<and>
   matched_trips_df [example_observation ''101S'' PyNone] [example_trip_c] = [] \<and>
   matching_trips (example_observation ''101S'' PyNone) [example_trip_a] = [example_trip_a] \<and>
   matched_trips_df [example_observation ''101S'' PyNone] [example_trip_a] =
     [(example_observation ''101S'' PyNone, example_trip_a)]"
  using matched_trips_df_inner_join
    [of "[]" "example_observation ''101S'' PyNone" "[]" "[example_trip_c]" "[]" "[]"]
    matched_trips_df_inner_join
    [of "[]" "example_observation ''101S'' PyNone" "[]" "[example_trip_a]" "[]" "[]"]
  by (simp add: example_matching matched_trips_df_Nil)

text \<open>
  Claim C2 as the specification states it fails: with two static trips that have the
  key of an observation, the observation is not dropped; it is matched with both.
\<close>

theorem matched_trips_df_ambiguous_counterexample:
  "matching_trips (example_observation ''101S'' (PyStr ''00:00:10''))
     [example_trip_a, example_trip_b, example_trip_c] = [example_trip_a, example_trip_b] \<and>
   example_trip_a \<noteq> example_trip_b \<and>
   matched_trips_df [example_observation ''101S'' (PyStr ''00:00:10'')]
     [example_trip_a, example_trip_b, example_trip_c] =
     [(example_observation ''101S'' (PyStr ''00:00:10''), example_trip_a),
      (example_observation ''101S'' (PyStr ''00:00:10''), example_trip_b)]"
  by (simp add: example_matching example_trips_differ matched_trips_df_single)

text \<open>
  Claim C9. Every row of the frame that \<^verbatim>\<open>main\<close> writes has a delay that is defined
  and of magnitude below 7200 seconds, and that delay is the value the calculator
  gives for the scheduled and observed times of the row: rows without a delay and
  rows with a delay of magnitude 7200 or more are left out, none is changed.
\<close>

theorem main_assemble_delay_defined:
  assumes "main_assemble today realtime_df trips_df stop_times_df = Inr (Some out)"
  shows "\<forall>r \<in> set out. \<exists>d. delay_seconds r = Some d \<and> \<bar>d\<bar> < 7200 \<and>
           calculate_delay today r = Inr (Some d)"
  using main_assemble_rows [OF assms] by blast

theorem main_assemble_delay_defined_witness:
  "main_assemble 739000 example_realtime_df [example_trip_a] example_stop_times_df =
     Inr (Some [final_columns
       ((example_observation ''101S'' (PyStr ''00:00:10''), example_trip_a),
        example_stop_time ''101S'' (PyStr ''23:59:50'')) (Some 20)]) \<and>
   delay_seconds (final_columns
       ((example_observation ''101S'' (PyStr ''00:00:10''), example_trip_a),
        example_stop_time ''101S'' (PyStr ''23:59:50'')) (Some 20)) = Some 20 \<and>
   calculate_delay 739000 (final_columns
       ((example_observation ''101S'' (PyStr ''00:00:10''), example_trip_a),
        example_stop_time ''101S'' (PyStr ''23:59:50'')) (Some 20)) = Inr (Some 20)"
  using main_assemble_delay_defined [OF example_final] example_final
  by (simp add: delay_seconds_final_columns)

section \<open>The claims about the Observation Store\<close>



text \<open>
  Claim C7. When an ingestion cycle ends, the snapshot table holds exactly the
  observations decoded in that cycle, in their order: the cycle empties the table
  first and then inserts every decoded row, so the rows do not depend on what the
  table held before. The cycle ends whenever the time conversion raises for no
  decoded observation.
\<close>

theorem process_and_store_data_snapshot:
  "(process_and_store_data env responses db = Inr db' \<longrightarrow>
      map Inr (realtime db') = decoded_observations env responses \<and>
      (\<forall>db2 db2'. process_and_store_data env responses db2 = Inr db2' \<longrightarrow>
         realtime db2' = realtime db')) \<and>
   ((\<forall>x \<in> set (decoded_observations env responses). \<exists>row. x = Inr row) \<longrightarrow>
      (\<exists>db'. process_and_store_data env responses db = Inr db'))"
proof -
  have "realtime db2' = realtime db'"
    if "process_and_store_data env responses db = Inr db'"
      "process_and_store_data env responses db2 = Inr db2'" for db2 db2'
  proof -
    from that have "map Inr (realtime db2') = (map Inr (realtime db') :: (py_error + trip_updates_row) list)"
      by (simp add: process_and_store_data_realtime)
    then show ?thesis by (simp add: inj_map_eq_map)
  qed
  then show ?thesis
    using process_and_store_data_realtime [of env responses db db']
      process_and_store_data_total [of env responses db]
    by blast
qed

theorem process_and_store_data_snapshot_witness:
  "list_all (\<lambda>x. \<exists>row. x = Inr row)
     (decoded_observations example_env [Some ''feed'', None, Some ''junk'', Some []]) \<and>
   decoded_observations example_env [Some ''feed'', None, Some ''junk'', Some []] =
     [Inr (example_row ''Southbound'' ''Van Cortlandt Park-242 St''), Inr (example_row ''Unknown'' ''103'')] \<and>
   process_and_store_data example_env [Some ''feed'', None, Some ''junk'', Some []]
     \<lparr>realtime = [example_row ''Unknown'' ''old''], historical = []\<rparr> =
     Inr \<lparr>realtime =
            [example_row ''Southbound'' ''Van Cortlandt Park-242 St'', example_row ''Unknown'' ''103''],
          historical =
            [example_row ''Southbound'' ''Van Cortlandt Park-242 St'', example_row ''Unknown'' ''103'']\<rparr>"
proof -
  have p: "process_and_store_data example_env [Some ''feed'', None, Some ''junk'', Some []]
     \<lparr>realtime = [example_row ''Unknown'' ''old''], historical = []\<rparr> =
     Inr \<lparr>realtime =
            [example_row ''Southbound'' ''Van Cortlandt Park-242 St'', example_row ''Unknown'' ''103''],
          historical =
            [example_row ''Southbound'' ''Van Cortlandt Park-242 St'', example_row ''Unknown'' ''103'']\<rparr>"
    by (simp add: store_eval)
  from process_and_store_data_snapshot
    [of example_env "[Some ''feed'', None, Some ''junk'', Some []]"
      "\<lparr>realtime = [example_row ''Unknown'' ''old''], historical = []\<rparr>"
      "\<lparr>realtime =
            [example_row ''Southbound'' ''Van Cortlandt Park-242 St'', example_row ''Unknown'' ''103''],
          historical =
            [example_row ''Southbound'' ''Van Cortlandt Park-242 St'', example_row ''Unknown'' ''103'']\<rparr>"] p
  have "decoded_observations example_env [Some ''feed'', None, Some ''junk'', Some []] =
      map Inr [example_row ''Southbound'' ''Van Cortlandt Park-242 St'', example_row ''Unknown'' ''103'']"
    by simp
  with p show ?thesis by simp
qed

end
